theory Spec2Isabelle
  imports Complex_Main "HOL-Library.Sublist" "HOL-Library.Code_Target_Nat"
begin

section \<open>JavaScript strings\<close>

text \<open>
  A JavaScript string is a sequence of UTF-16 code units. A code unit is modelled as a
  natural number (real strings only hold values below 65536), so that text outside
  ASCII, which a language model may well produce, is part of the model. \<open>js\<close> turns a
  literal of ASCII characters into such a string.
\<close>

type_synonym jstring = "nat list"

definition js :: "string \<Rightarrow> jstring" where
  "js s = map of_char s"

text \<open>\<open>WhiteSpace\<close> and \<open>LineTerminator\<close> of ECMAScript: what \<open>String.prototype.trim\<close> strips.\<close>

definition is_js_space :: "nat \<Rightarrow> bool" where
  "is_js_space c \<longleftrightarrow>
     c = 9 \<or> c = 10 \<or> c = 11 \<or> c = 12 \<or> c = 13 \<or> c = 32 \<or> c = 160 \<or> c = 5760 \<or>
     (8192 \<le> c \<and> c \<le> 8202) \<or> c = 8232 \<or> c = 8233 \<or> c = 8239 \<or> c = 8287 \<or>
     c = 12288 \<or> c = 65279"

definition trim :: "jstring \<Rightarrow> jstring" where
  "trim s = rev (dropWhile is_js_space (rev (dropWhile is_js_space s)))"

text \<open>\<open>s.split("\n")\<close>: the pieces between line feeds; the empty string gives one empty piece.\<close>

fun split_nl :: "jstring \<Rightarrow> jstring list" where
  "split_nl [] = [[]]"
| "split_nl (c # cs) =
     (if c = 10 then [] # split_nl cs
      else (case split_nl cs of [] \<Rightarrow> [[c]] | l # ls \<Rightarrow> (c # l) # ls))"

text \<open>\<open>parts.join(sep)\<close> on pieces that are strings already.\<close>

fun join_with :: "jstring \<Rightarrow> jstring list \<Rightarrow> jstring" where
  "join_with sep [] = []"
| "join_with sep [x] = x"
| "join_with sep (x # y # ys) = x @ sep @ join_with sep (y # ys)"

text \<open>Decimal digits of a non-negative integer, and \<open>String(n)\<close> for an integral Number
  of magnitude below \<open>10^21\<close> (array indices, HTTP status codes, time values).\<close>

function int_digits :: "int \<Rightarrow> jstring" where
  "int_digits n =
     (if n < 10 then [48 + nat n] else int_digits (n div 10) @ [48 + nat (n mod 10)])"
  by pat_completeness auto
termination
  by (relation "measure nat") auto

declare int_digits.simps [simp del]

definition nat_to_dec :: "nat \<Rightarrow> jstring" where
  "nat_to_dec n = int_digits (int n)"

definition int_to_dec :: "int \<Rightarrow> jstring" where
  "int_to_dec i = (if i < 0 then 45 # int_digits (- i) else int_digits i)"

section \<open>Numbers\<close>

text \<open>
  A Number is an IEEE 754 double. A finite double is kept as its exact rational value
  (the sign of zero is dropped: no operation of this program tells \<open>-0\<close> from \<open>0\<close>).
\<close>

datatype jsnum = Finite rat | PosInf | NegInf | NaN

text \<open>\<open>b\<close> to the power \<open>k\<close>, by squaring; \<open>1\<close> for a negative \<open>k\<close>.\<close>

function int_power :: "int \<Rightarrow> int \<Rightarrow> int" where
  "int_power b k =
     (if k \<le> 0 then 1
      else (let h = int_power b (k div 2) in if even k then h * h else b * h * h))"
  by pat_completeness auto
termination
  by (relation "measure (\<lambda>(b, k). nat k)") auto

declare int_power.simps [simp del]

definition ipow :: "int \<Rightarrow> int \<Rightarrow> rat" where
  "ipow b k = (if 0 \<le> k then of_int (int_power b k) else 1 / of_int (int_power b (- k)))"

function ndigits :: "int \<Rightarrow> int \<Rightarrow> int" where
  "ndigits b n = (if n \<le> 0 \<or> b < 2 then 0 else 1 + ndigits b (n div b))"
  by pat_completeness auto
termination
proof (relation "measure (\<lambda>(b, n). nat n)")
  fix b n :: int
  assume "\<not> (n \<le> 0 \<or> b < 2)"
  then have "n div b < n" and "0 < n"
    by (simp_all add: int_div_less_self)
  then show "((b, n div b), (b, n)) \<in> measure (\<lambda>(b, n). nat n)"
    by simp
qed simp

declare ndigits.simps [simp del]

text \<open>\<open>ilog b x\<close> is the integer \<open>k\<close> with \<open>b^k \<le> x < b^(k+1)\<close>, for a positive \<open>x\<close>.\<close>

definition ilog :: "int \<Rightarrow> rat \<Rightarrow> int" where
  "ilog b x =
     (let (n, d) = quotient_of x;
          g = ndigits b n - ndigits b d
      in if ipow b g \<le> x then g else g - 1)"

definition round_half_even :: "rat \<Rightarrow> int" where
  "round_half_even q =
     (let n = \<lfloor>q\<rfloor>; r = q - of_int n
      in if 1 / 2 < r \<or> (r = 1 / 2 \<and> odd n) then n + 1 else n)"

text \<open>The Number value for a real: round to the nearest double, ties to even; values
  from \<open>2^1024\<close> on become an infinity, values up to half the least subnormal become
  zero.\<close>

definition round_double :: "rat \<Rightarrow> jsnum" where
  "round_double x =
     (if x = 0 then Finite 0
      else
        let a = \<bar>x\<bar>;
            p = max (ilog 2 a - 52) (- 1074);
            r = of_int (round_half_even (a / ipow 2 p)) * ipow 2 p
        in if ipow 2 1024 \<le> r then (if x < 0 then NegInf else PosInf)
           else Finite (if x < 0 then - r else r))"

text \<open>
  \<open>Number::toString\<close> (radix 10) for a positive double \<open>x\<close>: the least number \<open>k\<close> of
  digits such that some \<open>s\<close> with \<open>k\<close> digits and some \<open>n\<close> give \<open>s * 10^(n-k)\<close> rounding
  to \<open>x\<close>; among several \<open>s\<close> the closest to \<open>x\<close>, then the even one. Seventeen digits
  identify every double, so the search over \<open>k\<close> stops there.
\<close>

definition digit_candidates :: "rat \<Rightarrow> int \<Rightarrow> int \<Rightarrow> (int \<times> int) list" where
  "digit_candidates x n k =
     (let scale = ipow 10 (n - k);
          lo = \<lfloor>x / scale\<rfloor>;
          ok = filter (\<lambda>s. round_double (of_int s * scale) = Finite x) [lo, lo + 1];
          best = (case ok of
                    [s, t] \<Rightarrow>
                      (let ds = x - of_int s * scale; dt = of_int t * scale - x
                       in if ds < dt \<or> (ds = dt \<and> even s) then [s] else [t])
                  | _ \<Rightarrow> ok)
      in map (\<lambda>s. if s = int_power 10 k then (int_power 10 (k - 1), n + 1) else (s, n)) best)"

fun shortest_digits :: "rat \<Rightarrow> int \<Rightarrow> int \<Rightarrow> nat \<Rightarrow> int \<times> int" where
  "shortest_digits x n k 0 = (\<lfloor>x / ipow 10 (n - k)\<rfloor>, n)"
| "shortest_digits x n k (Suc fuel) =
     (case digit_candidates x n k of
        c # _ \<Rightarrow> c
      | [] \<Rightarrow> shortest_digits x n (k + 1) fuel)"

definition render_digits :: "jstring \<Rightarrow> int \<Rightarrow> jstring" where
  "render_digits ds n =
     (let k = int (length ds) in
      if k \<le> n \<and> n \<le> 21 then ds @ replicate (nat (n - k)) 48
      else if 0 < n \<and> n \<le> 21 then take (nat n) ds @ [46] @ drop (nat n) ds
      else if - 6 < n \<and> n \<le> 0 then [48, 46] @ replicate (nat (- n)) 48 @ ds
      else
        let e = n - 1;
            ex = [101, if e < 0 then 45 else 43] @ int_digits \<bar>e\<bar>
        in if k = 1 then ds @ ex else take 1 ds @ [46] @ drop 1 ds @ ex)"

definition Number_toString :: "jsnum \<Rightarrow> jstring" where
  "Number_toString v =
     (case v of
        NaN \<Rightarrow> js ''NaN''
      | PosInf \<Rightarrow> js ''Infinity''
      | NegInf \<Rightarrow> js ''-Infinity''
      | Finite x \<Rightarrow>
          (if x = 0 then js ''0''
           else
             let a = \<bar>x\<bar>;
                 (s, n) = shortest_digits a (ilog 10 a + 1) 1 17
             in (if x < 0 then [45] else []) @ render_digits (int_digits s) n))"

section \<open>JavaScript values\<close>

text \<open>What a \<open>throw\<close> carries: an \<open>Error\<close> with its message, or one of the built-in errors
  (their messages depend on the engine and are left out).\<close>

datatype exn = Error jstring | TypeError | SyntaxError

text \<open>
  The values this program handles: what \<open>JSON.parse\<close> returns, and the response objects
  of the cloud client, whose \<open>text\<close> may be a function. A function value carries its
  source text and the outcome of calling it with no arguments on its owner: the string
  it returns (its declared type is \<open>() => string\<close>) or what it throws. An object is the
  list of its own properties.
\<close>

datatype jsval =
    Undefined
  | Null
  | Bool bool
  | Num jsnum
  | Str jstring
  | Arr "jsval list"
  | Obj "(jstring \<times> jsval) list"
  | Fun jstring "exn + jstring"

text \<open>\<open>Boolean(v)\<close>, also the test of \<open>if (v)\<close> and of \<open>v || w\<close>.\<close>

fun truthy :: "jsval \<Rightarrow> bool" where
  "truthy Undefined = False"
| "truthy Null = False"
| "truthy (Bool b) = b"
| "truthy (Num n) = (case n of Finite x \<Rightarrow> round_double x \<noteq> Finite 0 | NaN \<Rightarrow> False | _ \<Rightarrow> True)"
| "truthy (Str s) = (s \<noteq> [])"
| "truthy (Arr xs) = True"
| "truthy (Obj kvs) = True"
| "truthy (Fun src r) = True"

text \<open>
  \<open>OrdinaryToPrimitive\<close> on an object: an own \<open>toString\<close> or \<open>valueOf\<close> that is a function
  is called; one that is not callable is skipped; without an own \<open>toString\<close> the
  inherited one gives \<open>[object Object]\<close>, and the inherited \<open>valueOf\<close> returns the object
  itself, which is no primitive. When neither step gives a primitive, a TypeError.
\<close>

definition toString_step :: "(jstring \<times> jsval) list \<Rightarrow> (exn + jstring) option" where
  "toString_step kvs =
     (case map_of kvs (js ''toString'') of
        None \<Rightarrow> Some (Inr (js ''[object Object]''))
      | Some (Fun src r) \<Rightarrow> Some r
      | Some _ \<Rightarrow> None)"

definition valueOf_step :: "(jstring \<times> jsval) list \<Rightarrow> (exn + jstring) option" where
  "valueOf_step kvs =
     (case map_of kvs (js ''valueOf'') of
        Some (Fun src r) \<Rightarrow> Some r
      | _ \<Rightarrow> None)"

text \<open>With hint string (\<open>String(v)\<close>, \<open>join\<close>): \<open>toString\<close> first.\<close>

definition object_to_string :: "(jstring \<times> jsval) list \<Rightarrow> exn + jstring" where
  "object_to_string kvs =
     (case toString_step kvs of
        Some r \<Rightarrow> r
      | None \<Rightarrow> (case valueOf_step kvs of Some r \<Rightarrow> r | None \<Rightarrow> Inl TypeError))"

text \<open>With no hint (the operand of \<open>+\<close>): \<open>valueOf\<close> first.\<close>

definition object_to_primitive :: "(jstring \<times> jsval) list \<Rightarrow> exn + jstring" where
  "object_to_primitive kvs =
     (case valueOf_step kvs of
        Some r \<Rightarrow> r
      | None \<Rightarrow> (case toString_step kvs of Some r \<Rightarrow> r | None \<Rightarrow> Inl TypeError))"

text \<open>\<open>String(v)\<close>. An array joins the strings of its elements with commas, \<open>null\<close> and
  \<open>undefined\<close> elements giving the empty string; the first element that throws ends it.\<close>

fun ToString :: "jsval \<Rightarrow> exn + jstring"
  and elements_to_strings :: "jsval list \<Rightarrow> exn + jstring list" where
  "ToString Undefined = Inr (js ''undefined'')"
| "ToString Null = Inr (js ''null'')"
| "ToString (Bool b) = Inr (if b then js ''true'' else js ''false'')"
| "ToString (Num n) = Inr (Number_toString n)"
| "ToString (Str s) = Inr s"
| "ToString (Arr xs) =
     (case elements_to_strings xs of Inl e \<Rightarrow> Inl e | Inr ss \<Rightarrow> Inr (join_with [44] ss))"
| "ToString (Obj kvs) = object_to_string kvs"
| "ToString (Fun src r) = Inr src"
| "elements_to_strings [] = Inr []"
| "elements_to_strings (x # xs) =
     (case (if x = Undefined \<or> x = Null then Inr [] else ToString x) of
        Inl e \<Rightarrow> Inl e
      | Inr s \<Rightarrow> (case elements_to_strings xs of Inl e \<Rightarrow> Inl e | Inr ss \<Rightarrow> Inr (s # ss)))"

text \<open>The right operand of \<open>result += v\<close> for a string \<open>result\<close>, as a string.\<close>

definition concat_operand :: "jsval \<Rightarrow> exn + jstring" where
  "concat_operand v = (case v of Obj kvs \<Rightarrow> object_to_primitive kvs | _ \<Rightarrow> ToString v)"

text \<open>
  Property reads. The program reads the names \<open>response\<close>, \<open>text\<close>, \<open>candidates\<close>,
  \<open>content\<close>, \<open>parts\<close>, \<open>question\<close> and \<open>answer\<close>, none of which is a property of a string,
  an array, a number, a boolean or a function, and it reads the index \<open>0\<close>.
  \<open>v.name\<close> throws on \<open>null\<close> and \<open>undefined\<close>; \<open>v?.name\<close> gives \<open>undefined\<close> there.
\<close>

definition get_own :: "jsval \<Rightarrow> jstring \<Rightarrow> jsval" where
  "get_own v name =
     (case v of
        Obj kvs \<Rightarrow> (case map_of kvs name of Some x \<Rightarrow> x | None \<Rightarrow> Undefined)
      | _ \<Rightarrow> Undefined)"

definition nullish :: "jsval \<Rightarrow> bool" where
  "nullish v \<longleftrightarrow> v = Undefined \<or> v = Null"

definition member :: "jsval \<Rightarrow> jstring \<Rightarrow> exn + jsval" where
  "member v name = (if nullish v then Inl TypeError else Inr (get_own v name))"

definition opt_member :: "jsval \<Rightarrow> jstring \<Rightarrow> jsval" where
  "opt_member v name = (if nullish v then Undefined else get_own v name)"

definition opt_index0 :: "jsval \<Rightarrow> jsval" where
  "opt_index0 v =
     (case v of
        Arr xs \<Rightarrow> (case xs of [] \<Rightarrow> Undefined | x # _ \<Rightarrow> x)
      | Str s \<Rightarrow> (case s of [] \<Rightarrow> Undefined | c # _ \<Rightarrow> Str [c])
      | Obj kvs \<Rightarrow> (case map_of kvs (js ''0'') of Some x \<Rightarrow> x | None \<Rightarrow> Undefined)
      | _ \<Rightarrow> Undefined)"

section \<open>\<open>JSON.parse\<close>\<close>

text \<open>
  The JSON grammar of ECMA-404, as \<open>JSON.parse\<close> reads it: white space is space, tab,
  line feed and carriage return; a string holds any code unit from 32 on but the quote
  and the backslash, and the escapes; a number is rounded to a double; of two members
  with one key the later value wins, at the place of the first. A text that is not JSON
  throws a SyntaxError. Line 159, 165 of geminiService.ts and lines 31, 93 of
  ollamaService.ts call it.
\<close>

definition is_json_ws :: "nat \<Rightarrow> bool" where
  "is_json_ws c \<longleftrightarrow> c = 32 \<or> c = 9 \<or> c = 10 \<or> c = 13"

definition skip_ws :: "jstring \<Rightarrow> jstring" where
  "skip_ws cs = dropWhile is_json_ws cs"

definition is_digit :: "nat \<Rightarrow> bool" where
  "is_digit c \<longleftrightarrow> 48 \<le> c \<and> c \<le> 57"

definition hex_value :: "nat \<Rightarrow> nat option" where
  "hex_value c =
     (if 48 \<le> c \<and> c \<le> 57 then Some (c - 48)
      else if 65 \<le> c \<and> c \<le> 70 then Some (c - 55)
      else if 97 \<le> c \<and> c \<le> 102 then Some (c - 87)
      else None)"

definition hex4 :: "nat \<Rightarrow> nat \<Rightarrow> nat \<Rightarrow> nat \<Rightarrow> nat option" where
  "hex4 a b c d =
     (case (hex_value a, hex_value b, hex_value c, hex_value d) of
        (Some h3, Some h2, Some h1, Some h0) \<Rightarrow> Some (4096 * h3 + 256 * h2 + 16 * h1 + h0)
      | _ \<Rightarrow> None)"

text \<open>The character after a backslash, but \<open>u\<close>.\<close>

definition unescape :: "nat \<Rightarrow> nat option" where
  "unescape e =
     (if e = 34 \<or> e = 92 \<or> e = 47 then Some e
      else if e = 98 then Some 8
      else if e = 102 then Some 12
      else if e = 110 then Some 10
      else if e = 114 then Some 13
      else if e = 116 then Some 9
      else None)"

definition cons_char :: "nat \<Rightarrow> (jstring \<times> jstring) option \<Rightarrow> (jstring \<times> jstring) option" where
  "cons_char c r = (case r of None \<Rightarrow> None | Some (s, rest) \<Rightarrow> Some (c # s, rest))"

text \<open>The characters of a string after its opening quote, and what follows the closing one.\<close>

fun parse_chars :: "jstring \<Rightarrow> (jstring \<times> jstring) option" where
  "parse_chars [] = None"
| "parse_chars (c # cs) =
     (if c = 34 then Some ([], cs)
      else if c = 92 then
        (case cs of
           [] \<Rightarrow> None
         | e # r \<Rightarrow>
             if e = 117 then
               (case r of
                  h3 # h2 # h1 # h0 # r' \<Rightarrow>
                    (case hex4 h3 h2 h1 h0 of
                       None \<Rightarrow> None
                     | Some u \<Rightarrow> cons_char u (parse_chars r'))
                | _ \<Rightarrow> None)
             else
               (case unescape e of
                  None \<Rightarrow> None
                | Some u \<Rightarrow> cons_char u (parse_chars r)))
      else if c < 32 then None
      else cons_char c (parse_chars cs))"

definition digits_value :: "jstring \<Rightarrow> int" where
  "digits_value ds = foldl (\<lambda>a c. 10 * a + int (c - 48)) 0 ds"

text \<open>A number: \<open>-? (0 | [1-9][0-9]*) (. [0-9]+)? ([eE] [+-]? [0-9]+)?\<close>.\<close>

definition strip_minus :: "jstring \<Rightarrow> bool \<times> jstring" where
  "strip_minus cs =
     (case cs of [] \<Rightarrow> (False, cs) | c # r \<Rightarrow> if c = 45 then (True, r) else (False, cs))"

definition strip_sign :: "jstring \<Rightarrow> bool \<times> jstring" where
  "strip_sign cs =
     (case cs of
        [] \<Rightarrow> (False, cs)
      | c # r \<Rightarrow> if c = 45 then (True, r) else if c = 43 then (False, r) else (False, cs))"

text \<open>The digits of the fraction, when a point is there, and what follows.\<close>

definition parse_fraction :: "jstring \<Rightarrow> (jstring \<times> jstring) option" where
  "parse_fraction cs =
     (case cs of
        [] \<Rightarrow> Some ([], cs)
      | c # r \<Rightarrow>
          if c = 46 then
            (if takeWhile is_digit r = [] then None
             else Some (takeWhile is_digit r, dropWhile is_digit r))
          else Some ([], cs))"

text \<open>The exponent, when an \<open>e\<close> or \<open>E\<close> is there, and what follows.\<close>

definition parse_exponent :: "jstring \<Rightarrow> (int \<times> jstring) option" where
  "parse_exponent cs =
     (case cs of
        [] \<Rightarrow> Some (0, cs)
      | c # r \<Rightarrow>
          if c = 101 \<or> c = 69 then
            (case strip_sign r of
               (eneg, r') \<Rightarrow>
                 if takeWhile is_digit r' = [] then None
                 else Some ((if eneg then - 1 else 1) * digits_value (takeWhile is_digit r'),
                            dropWhile is_digit r'))
          else Some (0, cs))"

definition parse_number :: "jstring \<Rightarrow> (jsval \<times> jstring) option" where
  "parse_number cs =
     (case strip_minus cs of
        (neg, r0) \<Rightarrow>
          (let ds = takeWhile is_digit r0 in
           if ds = [] \<or> (hd ds = 48 \<and> length ds \<noteq> 1) then None
           else
             (case parse_fraction (dropWhile is_digit r0) of
                None \<Rightarrow> None
              | Some (fs, r2) \<Rightarrow>
                  (case parse_exponent r2 of
                     None \<Rightarrow> None
                   | Some (e, r3) \<Rightarrow>
                       (let m = of_int (digits_value (ds @ fs)) * ipow 10 (e - int (length fs))
                        in Some (Num (round_double (if neg then - m else m)), r3))))))"

definition parse_literal :: "jstring \<Rightarrow> (jsval \<times> jstring) option" where
  "parse_literal cs =
     (if take 4 cs = js ''true'' then Some (Bool True, drop 4 cs)
      else if take 5 cs = js ''false'' then Some (Bool False, drop 5 cs)
      else if take 4 cs = js ''null'' then Some (Null, drop 4 cs)
      else None)"

text \<open>\<open>CreateDataProperty\<close>: a key that is there keeps its place and takes the new value.\<close>

fun obj_put :: "jstring \<Rightarrow> jsval \<Rightarrow> (jstring \<times> jsval) list \<Rightarrow> (jstring \<times> jsval) list" where
  "obj_put k v [] = [(k, v)]"
| "obj_put k v ((k', v') # kvs) = (if k' = k then (k, v) # kvs else (k', v') # obj_put k v kvs)"

text \<open>
  The recursive descent, with a bound on the depth of calls. \<open>parse_value\<close> reads a value
  after white space; \<open>parse_elements\<close> reads the elements of a non-empty array up to its
  bracket; \<open>parse_members\<close> the members of a non-empty object up to its brace. Between
  two calls at least one character is read at every other step, so twice the length of
  the text bounds the depth: \<open>JSON_parse_fuel\<close> below proves that a larger bound gives the
  same result.
\<close>

fun parse_value :: "nat \<Rightarrow> jstring \<Rightarrow> (jsval \<times> jstring) option"
  and parse_elements :: "nat \<Rightarrow> jstring \<Rightarrow> (jsval list \<times> jstring) option"
  and parse_members ::
    "nat \<Rightarrow> (jstring \<times> jsval) list \<Rightarrow> jstring \<Rightarrow> ((jstring \<times> jsval) list \<times> jstring) option"
  where
  "parse_value 0 cs = None"
| "parse_value (Suc n) cs =
     (case skip_ws cs of
        [] \<Rightarrow> None
      | c # r \<Rightarrow>
          if c = 34 then
            (case parse_chars r of None \<Rightarrow> None | Some (s, r') \<Rightarrow> Some (Str s, r'))
          else if c = 91 then
            (case skip_ws r of
               [] \<Rightarrow> None
             | d # r' \<Rightarrow>
                 if d = 93 then Some (Arr [], r')
                 else (case parse_elements n r of
                         None \<Rightarrow> None
                       | Some (xs, r'') \<Rightarrow> Some (Arr xs, r'')))
          else if c = 123 then
            (case skip_ws r of
               [] \<Rightarrow> None
             | d # r' \<Rightarrow>
                 if d = 125 then Some (Obj [], r')
                 else (case parse_members n [] r of
                         None \<Rightarrow> None
                       | Some (kvs, r'') \<Rightarrow> Some (Obj kvs, r'')))
          else if c = 45 \<or> is_digit c then parse_number (c # r)
          else parse_literal (c # r))"
| "parse_elements 0 cs = None"
| "parse_elements (Suc n) cs =
     (case parse_value n cs of
        None \<Rightarrow> None
      | Some (v, r) \<Rightarrow>
          (case skip_ws r of
             [] \<Rightarrow> None
           | c # r' \<Rightarrow>
               if c = 44 then
                 (case parse_elements n r' of
                    None \<Rightarrow> None
                  | Some (vs, r'') \<Rightarrow> Some (v # vs, r''))
               else if c = 93 then Some ([v], r')
               else None))"
| "parse_members 0 acc cs = None"
| "parse_members (Suc n) acc cs =
     (case skip_ws cs of
        [] \<Rightarrow> None
      | c # r \<Rightarrow>
          if c = 34 then
            (case parse_chars r of
               None \<Rightarrow> None
             | Some (k, r1) \<Rightarrow>
                 (case skip_ws r1 of
                    [] \<Rightarrow> None
                  | c1 # r2 \<Rightarrow>
                      if c1 = 58 then
                        (case parse_value n r2 of
                           None \<Rightarrow> None
                         | Some (v, r3) \<Rightarrow>
                             (case skip_ws r3 of
                                [] \<Rightarrow> None
                              | c3 # r4 \<Rightarrow>
                                  if c3 = 44 then parse_members n (obj_put k v acc) r4
                                  else if c3 = 125 then Some (obj_put k v acc, r4)
                                  else None))
                      else None))
          else None)"

definition JSON_parse :: "jstring \<Rightarrow> exn + jsval" where
  "JSON_parse text =
     (case parse_value (2 * length text + 2) text of
        None \<Rightarrow> Inl SyntaxError
      | Some (v, r) \<Rightarrow> if skip_ws r = [] then Inr v else Inl SyntaxError)"

section \<open>The cloud variant: geminiService.ts\<close>

subsection \<open>The client and \<open>getModel\<close>\<close>

text \<open>
  The SDK's client is not part of the repository. \<open>getModel\<close> looks at two of its members:
  \<open>getGenerativeModel\<close> (newer SDKs) and \<open>models.generateContent\<close> (older SDKs). Each, when
  there, is taken as the function from a model name and a prompt to the outcome of the
  request: the response object, or what the call throws.
\<close>

record client =
  getGenerativeModel :: "(jstring \<Rightarrow> jstring \<Rightarrow> exn + jsval) option"
  models_generateContent :: "(jstring \<Rightarrow> jstring \<Rightarrow> exn + jsval) option"

definition getModel :: "client \<Rightarrow> jstring \<Rightarrow> exn + (jstring \<Rightarrow> exn + jsval)" where
  "getModel cl name =
     (case getGenerativeModel cl of
        Some f \<Rightarrow> Inr (f name)
      | None \<Rightarrow>
          (case models_generateContent cl of
             Some g \<Rightarrow> Inr (g name)
           | None \<Rightarrow> Inl (Error (js ''Your @google/genai version has an unexpected API shape.''))))"

subsection \<open>\<open>toText\<close>\<close>

text \<open>\<open>parts.map((p) => p?.text).filter(Boolean).join("\n")\<close>\<close>

definition join_parts :: "jsval list \<Rightarrow> exn + jstring" where
  "join_parts ps =
     (case elements_to_strings (filter truthy (map (\<lambda>p. opt_member p (js ''text'')) ps)) of
        Inl e \<Rightarrow> Inl e
      | Inr ss \<Rightarrow> Inr (join_with [10] ss))"

text \<open>Line 55: \<open>res?.response?.text\<close>.\<close>

definition response_text :: "jsval \<Rightarrow> jsval" where
  "response_text res = opt_member (opt_member res (js ''response'')) (js ''text'')"

text \<open>Lines 60 and 61: \<open>res?.response?.candidates?.[0]\<close>, then \<open>c?.content?.parts\<close>.\<close>

definition candidate_parts :: "jsval \<Rightarrow> jsval" where
  "candidate_parts res =
     (let c = opt_index0 (opt_member (opt_member res (js ''response'')) (js ''candidates''))
      in opt_member (opt_member c (js ''content'')) (js ''parts''))"

definition toText :: "jsval \<Rightarrow> exn + jstring" where
  "toText res =
     (case response_text res of
        Fun src r \<Rightarrow> r
      | Str s \<Rightarrow> Inr s
      | _ \<Rightarrow>
          (case candidate_parts res of
             Arr ps \<Rightarrow>
               (case join_parts ps of
                  Inl e \<Rightarrow> Inl e
                | Inr txt \<Rightarrow> if txt \<noteq> [] then Inr txt else Inr [])
           | _ \<Rightarrow> Inr []))"

subsection \<open>\<open>askQuestion\<close> and \<open>generateReport\<close>\<close>

text \<open>\<open>try { body } catch (err) { handler }\<close>\<close>

definition try_catch :: "exn + 'a \<Rightarrow> (exn \<Rightarrow> exn + 'a) \<Rightarrow> exn + 'a" where
  "try_catch body handler = (case body of Inl err \<Rightarrow> handler err | Inr v \<Rightarrow> Inr v)"

definition source_section :: "jstring \<Rightarrow> jstring list" where
  "source_section sourceContent = [js ''--- SOURCE ---'', sourceContent, js ''--- END SOURCE ---'']"

definition askQuestion_prompt_gemini :: "jstring \<Rightarrow> jstring \<Rightarrow> bool \<Rightarrow> jstring" where
  "askQuestion_prompt_gemini question sourceContent useThinkingMode =
     join_with [10]
       ([if useThinkingMode
         then js ''Think step by step, state key assumptions, then answer concisely.''
         else js ''Answer concisely and clearly.'',
         js ''Use the SOURCE when relevant. If the SOURCE lacks the answer, say so briefly.'',
         []]
        @ source_section sourceContent
        @ [[], js ''QUESTION: '' @ question])"

definition no_answer :: jstring where
  "no_answer = js ''I couldn'' @ [8217] @ js ''t produce an answer.''"

definition question_apology :: jstring where
  "question_apology = js ''Sorry, I encountered an error while processing your question.''"

text \<open>The body of the \<open>try\<close> of \<open>askQuestion\<close> (the two console lines print only).\<close>

definition askQuestion_try_gemini :: "client \<Rightarrow> jstring \<Rightarrow> jstring \<Rightarrow> bool \<Rightarrow> exn + jstring" where
  "askQuestion_try_gemini cl question sourceContent useThinkingMode =
     (let modelName = (if useThinkingMode then js ''gemini-2.5-pro'' else js ''gemini-2.5-flash'');
          prompt = askQuestion_prompt_gemini question sourceContent useThinkingMode
      in case getModel cl modelName of
           Inl e \<Rightarrow> Inl e
         | Inr model \<Rightarrow>
             (case model prompt of
                Inl e \<Rightarrow> Inl e
              | Inr res \<Rightarrow>
                  (case toText res of
                     Inl e \<Rightarrow> Inl e
                   | Inr text \<Rightarrow> Inr (if text \<noteq> [] then text else no_answer))))"

definition askQuestion_gemini :: "client \<Rightarrow> jstring \<Rightarrow> jstring \<Rightarrow> bool \<Rightarrow> exn + jstring" where
  "askQuestion_gemini cl question sourceContent useThinkingMode =
     try_catch (askQuestion_try_gemini cl question sourceContent useThinkingMode)
       (\<lambda>err. Inr question_apology)"

definition generateReport_prompt_gemini :: "jstring \<Rightarrow> jstring" where
  "generateReport_prompt_gemini sourceContent =
     join_with [10]
       ([js ''Create a crisp, well-structured report with short sections:'',
         js ''- Key ideas'',
         js ''- Evidence'',
         js ''- Uncertainties / open questions'',
         js ''End with 3 actionable next steps.'',
         []]
        @ source_section sourceContent)"

definition no_report :: jstring where
  "no_report = js ''No report text returned.''"

definition report_apology :: jstring where
  "report_apology = js ''Sorry, I encountered an error while generating the report.''"

definition generateReport_try_gemini :: "client \<Rightarrow> jstring \<Rightarrow> exn + jstring" where
  "generateReport_try_gemini cl sourceContent =
     (case getModel cl (js ''gemini-2.5-pro'') of
        Inl e \<Rightarrow> Inl e
      | Inr model \<Rightarrow>
          (case model (generateReport_prompt_gemini sourceContent) of
             Inl e \<Rightarrow> Inl e
           | Inr res \<Rightarrow>
               (case toText res of
                  Inl e \<Rightarrow> Inl e
                | Inr text \<Rightarrow> Inr (if text \<noteq> [] then text else no_report))))"

definition generateReport_gemini :: "client \<Rightarrow> jstring \<Rightarrow> exn + jstring" where
  "generateReport_gemini cl sourceContent =
     try_catch (generateReport_try_gemini cl sourceContent) (\<lambda>err. Inr report_apology)"

subsection \<open>\<open>generateFlashcards\<close>\<close>

text \<open>
  \<open>text.match(/\[[\s\S]*\]/)\<close>: the match starts at the first \<open>[\<close> that a \<open>]\<close> follows and,
  the star being greedy, ends at the last \<open>]\<close> of the text; \<open>null\<close> when no \<open>]\<close> follows the
  first \<open>[\<close>.
\<close>

definition match_array :: "jstring \<Rightarrow> jstring option" where
  "match_array text =
     (case dropWhile (\<lambda>c. c \<noteq> 91) text of
        [] \<Rightarrow> None
      | b # rest \<Rightarrow>
          (let inner = rev (dropWhile (\<lambda>c. c \<noteq> 93) (rev rest))
           in if inner = [] then None else Some (b # inner)))"

text \<open>Lines 157 to 169: the array, or \<open>null\<close>. The pattern is tried only in the \<open>catch\<close> of
  the first \<open>JSON.parse\<close>, that is when the whole text is not JSON.\<close>

definition best_effort_array :: "jstring \<Rightarrow> jsval list option" where
  "best_effort_array text =
     (case JSON_parse text of
        Inr parsed \<Rightarrow> (case parsed of Arr xs \<Rightarrow> Some xs | _ \<Rightarrow> None)
      | Inl err \<Rightarrow>
          (case match_array text of
             None \<Rightarrow> None
           | Some m \<Rightarrow>
               (case JSON_parse m of
                  Inr parsed \<Rightarrow> (case parsed of Arr xs \<Rightarrow> Some xs | _ \<Rightarrow> None)
                | Inl err' \<Rightarrow> None)))"

record flashcard =
  fc_id :: jstring
  fc_question :: jstring
  fc_answer :: jstring

text \<open>\<open>`flashcard-${Date.now()}-${i}`\<close>, for the time value \<open>now\<close> and the index \<open>i\<close>.\<close>

definition flashcard_id :: "int \<Rightarrow> nat \<Rightarrow> jstring" where
  "flashcard_id now i = js ''flashcard-'' @ int_to_dec now @ [45] @ nat_to_dec i"

text \<open>\<open>String(card?.name ?? "").trim()\<close>\<close>

definition coerce_field :: "jsval \<Rightarrow> jstring \<Rightarrow> exn + jstring" where
  "coerce_field item name =
     (let v = opt_member item name
      in case ToString (if nullish v then Str [] else v) of
           Inl e \<Rightarrow> Inl e
         | Inr s \<Rightarrow> Inr (trim s))"

text \<open>
  Lines 171 to 175: the \<open>map\<close> over the array. \<open>clock k\<close> is what the call number \<open>k\<close> of
  \<open>Date.now()\<close> returns in this invocation; the callback for the element \<open>i\<close> makes the
  call number \<open>i\<close>. A conversion that throws ends the \<open>map\<close>.
\<close>

fun make_cards :: "(nat \<Rightarrow> int) \<Rightarrow> nat \<Rightarrow> jsval list \<Rightarrow> exn + flashcard list" where
  "make_cards clock i [] = Inr []"
| "make_cards clock i (item # rest) =
     (case coerce_field item (js ''question'') of
        Inl e \<Rightarrow> Inl e
      | Inr q \<Rightarrow>
          (case coerce_field item (js ''answer'') of
             Inl e \<Rightarrow> Inl e
           | Inr a \<Rightarrow>
               (case make_cards clock (Suc i) rest of
                  Inl e \<Rightarrow> Inl e
                | Inr cards \<Rightarrow>
                    Inr (\<lparr>fc_id = flashcard_id (clock i) i, fc_question = q, fc_answer = a\<rparr> # cards))))"

text \<open>Lines 156 to 177, on the trimmed text of the response: the Structured Extractor of
  the cloud variant.\<close>

definition extractFlashcards_gemini :: "(nat \<Rightarrow> int) \<Rightarrow> jstring \<Rightarrow> exn + flashcard list" where
  "extractFlashcards_gemini clock text =
     (case make_cards clock 0 (case best_effort_array text of None \<Rightarrow> [] | Some xs \<Rightarrow> xs) of
        Inl e \<Rightarrow> Inl e
      | Inr cards \<Rightarrow>
          Inr (if cards \<noteq> [] then cards
               else [\<lparr>fc_id = flashcard_id (clock 0) 0, fc_question = js ''Summary'',
                      fc_answer = take 1000 text\<rparr>]))"

definition generateFlashcards_prompt_gemini :: "jstring \<Rightarrow> jstring" where
  \<open>generateFlashcards_prompt_gemini sourceContent =
     join_with [10]
       ([js ''From the SOURCE, produce 8'' @ [8211] @ js ''12 flashcards as pure JSON (no prose):'',
         join_with [10]
           [js ''['',
            js ''  {"question":"...", "answer":"..."},'',
            js ''  {"question":"...", "answer":"..."}'',
            js '']''],
         js ''Short Q/A, one idea per card. No markdown, only JSON.'',
         []]
        @ source_section sourceContent)\<close>

definition generateFlashcards_try_gemini ::
  "client \<Rightarrow> (nat \<Rightarrow> int) \<Rightarrow> jstring \<Rightarrow> exn + flashcard list" where
  "generateFlashcards_try_gemini cl clock sourceContent =
     (case getModel cl (js ''gemini-2.5-flash'') of
        Inl e \<Rightarrow> Inl e
      | Inr model \<Rightarrow>
          (case model (generateFlashcards_prompt_gemini sourceContent) of
             Inl e \<Rightarrow> Inl e
           | Inr res \<Rightarrow>
               (case toText res of
                  Inl e \<Rightarrow> Inl e
                | Inr t \<Rightarrow> extractFlashcards_gemini clock (trim t))))"

definition generateFlashcards_gemini ::
  "client \<Rightarrow> (nat \<Rightarrow> int) \<Rightarrow> jstring \<Rightarrow> exn + flashcard list" where
  "generateFlashcards_gemini cl clock sourceContent =
     try_catch (generateFlashcards_try_gemini cl clock sourceContent) (\<lambda>err. Inr [])"

section \<open>The local variant: ollamaService.ts\<close>

subsection \<open>\<open>queryOllama\<close>\<close>

text \<open>
  What \<open>fetch\<close> resolves to: the status, what \<open>res.text()\<close> resolves to or rejects with,
  and the body: \<open>None\<close> when \<open>res.body\<close> is \<open>null\<close>, else the texts that \<open>decoder.decode\<close>
  gives for the chunks the reader delivers, in order, and the error that the read after
  the last of them rejects with, if it does not report the end of the stream.
\<close>

record http_response =
  status :: nat
  text_body :: "exn + jstring"
  body :: "(jstring list \<times> exn option) option"

definition ok :: "http_response \<Rightarrow> bool" where
  "ok res \<longleftrightarrow> 200 \<le> status res \<and> status res \<le> 299"

text \<open>The body of the \<open>for\<close> loop: a line that is not JSON, a \<open>null\<close> line and a \<open>response\<close>
  that cannot be converted are skipped by the \<open>catch\<close>.\<close>

definition process_line :: "jstring \<Rightarrow> jstring \<Rightarrow> jstring" where
  "process_line result line =
     (case JSON_parse line of
        Inl err \<Rightarrow> result
      | Inr json \<Rightarrow>
          (case member json (js ''response'') of
             Inl err \<Rightarrow> result
           | Inr r \<Rightarrow>
               if truthy r then
                 (case concat_operand r of Inl err \<Rightarrow> result | Inr s \<Rightarrow> result @ s)
               else result))"

text \<open>\<open>chunk.split("\n").filter(Boolean)\<close>\<close>

definition chunk_lines :: "jstring \<Rightarrow> jstring list" where
  "chunk_lines chunk = filter (\<lambda>l. l \<noteq> []) (split_nl chunk)"

definition process_chunk :: "jstring \<Rightarrow> jstring \<Rightarrow> jstring" where
  "process_chunk result chunk = foldl process_line result (chunk_lines chunk)"

text \<open>The \<open>while (true)\<close> loop over the reads.\<close>

fun read_loop :: "jstring \<Rightarrow> jstring list \<Rightarrow> exn option \<Rightarrow> exn + jstring" where
  "read_loop result [] None = Inr result"
| "read_loop result [] (Some e) = Inl e"
| "read_loop result (chunk # chunks) failure = read_loop (process_chunk result chunk) chunks failure"

text \<open>
  \<open>backend prompt\<close> is the outcome of the \<open>fetch\<close>: the request is fixed but for the prompt
  in its body.
\<close>

definition queryOllama :: "(jstring \<Rightarrow> exn + http_response) \<Rightarrow> jstring \<Rightarrow> exn + jstring" where
  "queryOllama backend prompt =
     (case backend prompt of
        Inl e \<Rightarrow> Inl e
      | Inr res \<Rightarrow>
          if \<not> ok res then
            (case text_body res of
               Inl e \<Rightarrow> Inl e
             | Inr errText \<Rightarrow>
                 Inl (Error (js ''Ollama error '' @ nat_to_dec (status res) @ js '': '' @ errText)))
          else
            (case body res of
               None \<Rightarrow> Inr (js ''(no response body)'')
             | Some (chunks, failure) \<Rightarrow>
                 (case read_loop [] chunks failure of
                    Inl e \<Rightarrow> Inl e
                  | Inr result \<Rightarrow> Inr (trim result))))"

subsection \<open>The service\<close>

definition askQuestion_prompt_ollama :: "jstring \<Rightarrow> jstring \<Rightarrow> bool \<Rightarrow> jstring" where
  "askQuestion_prompt_ollama question sourceContent useThinkingMode =
     join_with [10]
       ([if useThinkingMode
         then js ''Think step by step, state assumptions clearly, then answer concisely.''
         else js ''Answer clearly and concisely.'',
         []]
        @ source_section sourceContent
        @ [[], js ''QUESTION: '' @ question])"

definition askQuestion_ollama ::
  "(jstring \<Rightarrow> exn + http_response) \<Rightarrow> jstring \<Rightarrow> jstring \<Rightarrow> bool \<Rightarrow> exn + jstring" where
  "askQuestion_ollama backend question sourceContent useThinkingMode =
     try_catch (queryOllama backend (askQuestion_prompt_ollama question sourceContent useThinkingMode))
       (\<lambda>err. Inr question_apology)"

definition generateReport_prompt_ollama :: "jstring \<Rightarrow> jstring" where
  "generateReport_prompt_ollama sourceContent =
     join_with [10]
       ([js ''Write a short, well-structured report with sections:'',
         js ''- Key ideas'',
         js ''- Evidence'',
         js ''- Open questions'',
         js ''End with 3 actionable next steps.'',
         []]
        @ source_section sourceContent)"

definition generateReport_ollama :: "(jstring \<Rightarrow> exn + http_response) \<Rightarrow> jstring \<Rightarrow> exn + jstring" where
  "generateReport_ollama backend sourceContent =
     queryOllama backend (generateReport_prompt_ollama sourceContent)"

definition generateFlashcards_prompt_ollama :: "jstring \<Rightarrow> jstring" where
  \<open>generateFlashcards_prompt_ollama sourceContent =
     join_with [10]
       ([js ''Create 8'' @ [8211] @ js ''12 concise Q/A flashcards as JSON:'',
         join_with [10]
           [js ''['',
            js ''  {"question":"...","answer":"..."}'',
            js '']''],
         js ''Keep answers short and factual.'',
         []]
        @ source_section sourceContent)\<close>

text \<open>Lines 92 to 96, on the text of the response: the Structured Extractor of the local
  variant. It returns the parsed array as it is.\<close>

definition extractFlashcards_ollama :: "jstring \<Rightarrow> jsval list" where
  "extractFlashcards_ollama text =
     (case JSON_parse text of
        Inr parsed \<Rightarrow>
          (case parsed of
             Arr xs \<Rightarrow> xs
           | _ \<Rightarrow> [Obj [(js ''question'', Str (js ''Summary'')), (js ''answer'', Str text)]])
      | Inl err \<Rightarrow> [Obj [(js ''question'', Str (js ''Summary'')), (js ''answer'', Str text)]])"

definition generateFlashcards_ollama ::
  "(jstring \<Rightarrow> exn + http_response) \<Rightarrow> jstring \<Rightarrow> exn + jsval list" where
  "generateFlashcards_ollama backend sourceContent =
     (case queryOllama backend (generateFlashcards_prompt_ollama sourceContent) of
        Inl e \<Rightarrow> Inl e
      | Inr text \<Rightarrow> Inr (extractFlashcards_ollama text))"

section \<open>The claims' own words, and sample environments\<close>

text \<open>
  The specification's reading of the coercion of an array element: a \<open>question\<close> or
  \<open>answer\<close> that is a string is trimmed, and one that is missing or is not a string
  becomes the empty string.
\<close>

definition spec_field :: "jsval \<Rightarrow> jstring \<Rightarrow> jstring" where
  "spec_field item name = (case get_own item name of Str s \<Rightarrow> trim s | _ \<Rightarrow> [])"

definition spec_question_answer :: "jsval \<Rightarrow> jstring \<times> jstring" where
  "spec_question_answer item = (spec_field item (js ''question''), spec_field item (js ''answer''))"

text \<open>What the code makes of an element whose two fields convert: the record at
  position \<open>i\<close>, with \<open>String(item?.name ?? "").trim()\<close> for each field.\<close>

definition converts :: "jsval \<Rightarrow> bool" where
  "converts item \<longleftrightarrow>
     \<not> isl (coerce_field item (js ''question'')) \<and> \<not> isl (coerce_field item (js ''answer''))"

definition field_text :: "jsval \<Rightarrow> jstring \<Rightarrow> jstring" where
  "field_text item name = (case coerce_field item name of Inr s \<Rightarrow> s | Inl e \<Rightarrow> [])"

definition coerced_card :: "(nat \<Rightarrow> int) \<Rightarrow> nat \<Rightarrow> jsval \<Rightarrow> flashcard" where
  "coerced_card clock i item =
     \<lparr>fc_id = flashcard_id (clock i) i,
      fc_question = field_text item (js ''question''),
      fc_answer = field_text item (js ''answer'')\<rparr>"

text \<open>A text contains a valid JSON array when one of its contiguous pieces (the text
  itself is one) parses to an array.\<close>

definition is_json_array :: "jstring \<Rightarrow> bool" where
  "is_json_array s =
     (case JSON_parse s of
        Inr parsed \<Rightarrow> (case parsed of Arr xs \<Rightarrow> True | _ \<Rightarrow> False)
      | Inl err \<Rightarrow> False)"

definition contains_json_array :: "jstring \<Rightarrow> bool" where
  "contains_json_array text = list_ex is_json_array (sublists text)"

text \<open>The record both variants return when they find no array.\<close>

definition summary_card :: "(nat \<Rightarrow> int) \<Rightarrow> jstring \<Rightarrow> flashcard" where
  "summary_card clock text =
     \<lparr>fc_id = flashcard_id (clock 0) 0, fc_question = js ''Summary'', fc_answer = take 1000 text\<rparr>"

definition summary_object :: "jstring \<Rightarrow> jsval" where
  "summary_object text = Obj [(js ''question'', Str (js ''Summary'')), (js ''answer'', Str text)]"

text \<open>A line of the stream that is a JSON object whose \<open>response\<close> is the string \<open>r\<close>, or
  that has no \<open>response\<close> (then \<open>r\<close> is empty).\<close>

definition response_line :: "jstring \<Rightarrow> jstring \<Rightarrow> bool" where
  "response_line line r \<longleftrightarrow>
     (\<exists>kvs. JSON_parse line = Inr (Obj kvs)
        \<and> (map_of kvs (js ''response'') = Some (Str r)
           \<or> map_of kvs (js ''response'') = None \<and> r = []))"

text \<open>A clock that advances by one millisecond between two calls.\<close>

definition sample_clock :: "nat \<Rightarrow> int" where
  "sample_clock k = 1762135200123 + int k"

text \<open>A cloud client of the newer kind whose every response is \<open>{response: {text: t}}\<close>.\<close>

definition replying_client :: "jsval \<Rightarrow> client" where
  "replying_client t =
     \<lparr>getGenerativeModel = Some (\<lambda>name prompt. Inr (Obj [(js ''response'', Obj [(js ''text'', t)])])),
      models_generateContent = None\<rparr>"

text \<open>A local backend that answers 200 and streams the given chunks to the end.\<close>

definition streaming_backend :: "jstring list \<Rightarrow> jstring \<Rightarrow> exn + http_response" where
  "streaming_backend chunks prompt =
     Inr \<lparr>status = 200, text_body = Inr (concat chunks), body = Some (chunks, None)\<rparr>"

text \<open>A local backend that answers 200 and streams one line: the JSON object whose
  \<open>response\<close> is the given text (a text with no control character), quotes and
  backslashes escaped.\<close>

definition json_quote :: "jstring \<Rightarrow> jstring" where
  "json_quote s = concat (map (\<lambda>c. if c = 34 \<or> c = 92 then [92, c] else [c]) s)"

definition answering_backend :: "jstring \<Rightarrow> jstring \<Rightarrow> exn + http_response" where
  \<open>answering_backend answer =
     streaming_backend [js ''{"response":"'' @ json_quote answer @ js ''"}'' @ [10]]\<close>

section \<open>Properties\<close>

subsection \<open>The depth bound of the JSON parser\<close>

text \<open>
  Every parser returns a rest that is shorter than its input. So the bound that
  \<open>JSON_parse\<close> puts on the depth of the calls is never reached: with any larger bound the
  result is the same, and a \<open>SyntaxError\<close> of the model is a text that is not JSON.
\<close>

lemma length_skip_ws: "length (skip_ws cs) \<le> length cs"
  by (simp add: skip_ws_def length_dropWhile_le)

lemma skip_ws_Cons: "skip_ws cs = c # r \<Longrightarrow> length r < length cs"
  using length_skip_ws [of cs] by simp

lemma cons_char_Some: "cons_char c x = Some (s, r) \<Longrightarrow> \<exists>s'. x = Some (s', r)"
  by (cases x) (auto simp: cons_char_def)

lemma parse_chars_shorter: "parse_chars cs = Some (s, r) \<Longrightarrow> length r < length cs"
proof (induction cs arbitrary: s r rule: length_induct)
  case (1 cs)
  from "1.prems" obtain c cs' where cs: "cs = c # cs'"
    by (cases cs) auto
  from "1.prems" have
    "r = cs' \<or> (\<exists>ys s'. parse_chars ys = Some (s', r) \<and> length ys \<le> length cs')"
    unfolding cs
    by (auto split: if_splits list.splits option.splits dest!: cons_char_Some)
  then show ?case
  proof
    assume "r = cs'"
    with cs show ?thesis by simp
  next
    assume "\<exists>ys s'. parse_chars ys = Some (s', r) \<and> length ys \<le> length cs'"
    then obtain ys s' where ys: "parse_chars ys = Some (s', r)" "length ys \<le> length cs'"
      by blast
    with cs have "length ys < length cs" by simp
    with "1.IH" ys(1) have "length r < length ys" by blast
    with ys(2) cs show ?thesis by simp
  qed
qed

lemma parse_fraction_shorter: "parse_fraction cs = Some (fs, r) \<Longrightarrow> length r \<le> length cs"
  by (auto simp: parse_fraction_def split: list.splits if_splits
      intro: le_trans [OF length_dropWhile_le])

lemma strip_sign_shorter: "strip_sign cs = (neg, r) \<Longrightarrow> length r \<le> length cs"
  by (auto simp: strip_sign_def split: list.splits if_splits)

lemma parse_exponent_shorter: "parse_exponent cs = Some (e, r) \<Longrightarrow> length r \<le> length cs"
proof (cases cs)
  case Nil
  assume "parse_exponent cs = Some (e, r)"
  with Nil show ?thesis by (simp add: parse_exponent_def)
next
  case (Cons c r0)
  assume a: "parse_exponent cs = Some (e, r)"
  show ?thesis
  proof (cases "c = 101 \<or> c = 69")
    case False
    with a Cons show ?thesis by (simp add: parse_exponent_def)
  next
    case True
    obtain eneg r' where ss: "strip_sign r0 = (eneg, r')"
      by (cases "strip_sign r0")
    with a Cons True have "r = dropWhile is_digit r'"
      by (auto simp: parse_exponent_def split: if_splits)
    then have "length r \<le> length r'"
      by (simp add: length_dropWhile_le)
    with strip_sign_shorter [OF ss] Cons show ?thesis
      by simp
  qed
qed

lemma parse_number_shorter: "parse_number cs = Some (v, r) \<Longrightarrow> length r < length cs"
proof -
  assume a: "parse_number cs = Some (v, r)"
  obtain neg r0 where sm: "strip_minus cs = (neg, r0)"
    by (cases "strip_minus cs")
  then have r0: "length r0 \<le> length cs"
    by (auto simp: strip_minus_def split: list.splits if_splits)
  from a sm have ds: "takeWhile is_digit r0 \<noteq> []"
    by (auto simp: parse_number_def Let_def split: if_splits)
  have "length (takeWhile is_digit r0) + length (dropWhile is_digit r0) = length r0"
    by (metis length_append takeWhile_dropWhile_id)
  with ds have r1: "length (dropWhile is_digit r0) < length r0"
    by (cases "takeWhile is_digit r0") auto
  from a sm ds obtain fs r2 e where f: "parse_fraction (dropWhile is_digit r0) = Some (fs, r2)"
    and x: "parse_exponent r2 = Some (e, r)"
    by (auto simp: parse_number_def Let_def split: if_splits option.splits)
  from parse_fraction_shorter [OF f] parse_exponent_shorter [OF x] r1 r0 show ?thesis
    by simp
qed

lemma parse_literal_shorter: "parse_literal cs = Some (v, r) \<Longrightarrow> length r < length cs"
proof -
  assume a: "parse_literal cs = Some (v, r)"
  then have "cs \<noteq> []"
    by (auto simp: parse_literal_def js_def)
  moreover from a have "r = drop 4 cs \<or> r = drop 5 cs"
    by (auto simp: parse_literal_def split: if_splits)
  ultimately show ?thesis
    by (cases cs) auto
qed

lemma parse_shorter:
  "(\<forall>cs v r. parse_value n cs = Some (v, r) \<longrightarrow> length r < length cs)
   \<and> (\<forall>cs vs r. parse_elements n cs = Some (vs, r) \<longrightarrow> length r < length cs)
   \<and> (\<forall>acc cs kvs r. parse_members n acc cs = Some (kvs, r) \<longrightarrow> length r < length cs)"
proof (induction n)
  case 0
  show ?case by simp
next
  case (Suc n)
  then have v: "\<And>cs v r. parse_value n cs = Some (v, r) \<Longrightarrow> length r < length cs"
    and e: "\<And>cs vs r. parse_elements n cs = Some (vs, r) \<Longrightarrow> length r < length cs"
    and m: "\<And>acc cs kvs r. parse_members n acc cs = Some (kvs, r) \<Longrightarrow> length r < length cs"
    by blast+
  have "length r < length cs" if a: "parse_value (Suc n) cs = Some (v, r)" for cs v r
  proof -
    from a obtain c r0 where sk: "skip_ws cs = c # r0"
      by (cases "skip_ws cs") auto
    from a have "(\<exists>s. parse_chars r0 = Some (s, r)) \<or> (\<exists>d. skip_ws r0 = d # r)
        \<or> (\<exists>xs. parse_elements n r0 = Some (xs, r)) \<or> (\<exists>kvs. parse_members n [] r0 = Some (kvs, r))
        \<or> parse_number (c # r0) = Some (v, r) \<or> parse_literal (c # r0) = Some (v, r)"
      unfolding parse_value.simps sk
      by (auto split: if_splits list.splits option.splits)
    then have "length r \<le> length r0"
      using parse_chars_shorter [of r0 _ r] skip_ws_Cons [of r0 _ r] e [of r0 _ r] m [of "[]" r0 _ r]
        parse_number_shorter [of "c # r0" v r] parse_literal_shorter [of "c # r0" v r]
      by fastforce
    with skip_ws_Cons [OF sk] show ?thesis by simp
  qed
  moreover have "length r < length cs" if a: "parse_elements (Suc n) cs = Some (vs, r)" for cs vs r
  proof -
    from a obtain x r1 where pv: "parse_value n cs = Some (x, r1)"
      by (cases "parse_value n cs") auto
    with a obtain c r2 where sk: "skip_ws r1 = c # r2"
      by (cases "skip_ws r1") auto
    from a pv sk have "(\<exists>vs'. parse_elements n r2 = Some (vs', r)) \<or> r = r2"
      by (auto split: if_splits option.splits)
    then have "length r \<le> length r2"
      using e [of r2 _ r] by fastforce
    with skip_ws_Cons [OF sk] v [OF pv] show ?thesis by simp
  qed
  moreover have "length r < length cs" if a: "parse_members (Suc n) acc cs = Some (kvs, r)"
    for acc cs kvs r
  proof -
    from a obtain c r0 where sk: "skip_ws cs = c # r0"
      by (cases "skip_ws cs") auto
    with a obtain k r1 where pc: "parse_chars r0 = Some (k, r1)"
      by (cases "parse_chars r0") (auto split: if_splits)
    with a sk obtain c1 r2 where sk1: "skip_ws r1 = c1 # r2"
      by (cases "skip_ws r1") (auto split: if_splits)
    with a sk pc obtain x r3 where pv: "parse_value n r2 = Some (x, r3)"
      by (cases "parse_value n r2") (auto split: if_splits)
    with a sk pc sk1 obtain c3 r4 where sk3: "skip_ws r3 = c3 # r4"
      by (cases "skip_ws r3") (auto split: if_splits)
    from a sk pc sk1 pv sk3
    have "parse_members n (obj_put k x acc) r4 = Some (kvs, r) \<or> r = r4"
      by (auto split: if_splits)
    then have "length r \<le> length r4"
      using m [of "obj_put k x acc" r4 kvs r] by fastforce
    with skip_ws_Cons [OF sk] parse_chars_shorter [OF pc] skip_ws_Cons [OF sk1] v [OF pv]
      skip_ws_Cons [OF sk3]
    show ?thesis by simp
  qed
  ultimately show ?case by blast
qed

lemma parse_value_shorter: "parse_value n cs = Some (v, r) \<Longrightarrow> length r < length cs"
  using parse_shorter by blast

text \<open>From the bound on, one more unit of depth changes nothing.\<close>

lemma parse_fuel_step:
  "(\<forall>cs. 2 * length cs + 1 \<le> n \<longrightarrow> parse_value (Suc n) cs = parse_value n cs)
   \<and> (\<forall>cs. 2 * length cs + 2 \<le> n \<longrightarrow> parse_elements (Suc n) cs = parse_elements n cs)
   \<and> (\<forall>acc cs. 2 * length cs + 2 \<le> n \<longrightarrow>
          parse_members (Suc n) acc cs = parse_members n acc cs)"
proof (induction n)
  case 0
  show ?case by simp
next
  case (Suc n)
  then have v: "\<And>cs. 2 * length cs + 1 \<le> n \<Longrightarrow> parse_value (Suc n) cs = parse_value n cs"
    and e: "\<And>cs. 2 * length cs + 2 \<le> n \<Longrightarrow> parse_elements (Suc n) cs = parse_elements n cs"
    and m: "\<And>acc cs. 2 * length cs + 2 \<le> n \<Longrightarrow>
              parse_members (Suc n) acc cs = parse_members n acc cs"
    by blast+
  have "parse_value (Suc (Suc n)) cs = parse_value (Suc n) cs" if b: "2 * length cs + 1 \<le> Suc n" for cs
  proof (cases "skip_ws cs")
    case Nil
    then show ?thesis by simp
  next
    case (Cons c r0)
    from skip_ws_Cons [OF Cons] b have "2 * length r0 + 2 \<le> n" by simp
    then have E: "parse_elements (Suc n) r0 = parse_elements n r0"
      and M: "parse_members (Suc n) [] r0 = parse_members n [] r0"
      by (rule e, rule m)
    note A = parse_value.simps(2) [of "Suc n" cs, unfolded Cons list.case E M]
    note B = parse_value.simps(2) [of n cs, unfolded Cons list.case]
    show ?thesis unfolding A B ..
  qed
  moreover
  have "parse_elements (Suc (Suc n)) cs = parse_elements (Suc n) cs"
    if b: "2 * length cs + 2 \<le> Suc n" for cs
  proof -
    from b have V: "parse_value (Suc n) cs = parse_value n cs"
      by (intro v) simp
    show ?thesis
    proof (cases "parse_value n cs")
      case None
      note A = parse_elements.simps(2) [of "Suc n" cs, unfolded V None option.case]
      note B = parse_elements.simps(2) [of n cs, unfolded None option.case]
      show ?thesis unfolding A B ..
    next
      case (Some p)
      obtain x r1 where p: "p = (x, r1)" by (cases p)
      note S = Some [unfolded p]
      show ?thesis
      proof (cases "skip_ws r1")
        case Nil
        note A = parse_elements.simps(2) [of "Suc n" cs, unfolded V S option.case prod.case Nil list.case]
        note B = parse_elements.simps(2) [of n cs, unfolded S option.case prod.case Nil list.case]
        show ?thesis unfolding A B ..
      next
        case (Cons c r2)
        from parse_value_shorter [OF S] skip_ws_Cons [OF Cons] b have "2 * length r2 + 2 \<le> n"
          by simp
        then have E: "parse_elements (Suc n) r2 = parse_elements n r2"
          by (rule e)
        note A = parse_elements.simps(2) [of "Suc n" cs, unfolded V S option.case prod.case Cons list.case E]
        note B = parse_elements.simps(2) [of n cs, unfolded S option.case prod.case Cons list.case]
        show ?thesis unfolding A B ..
      qed
    qed
  qed
  moreover
  have "parse_members (Suc (Suc n)) acc cs = parse_members (Suc n) acc cs"
    if b: "2 * length cs + 2 \<le> Suc n" for acc cs
  proof (cases "skip_ws cs")
    case Nil
    then show ?thesis by simp
  next
    case sk: (Cons c r0)
    show ?thesis
    proof (cases "parse_chars r0")
      case None
      note A = parse_members.simps(2) [of "Suc n" acc cs, unfolded sk list.case None option.case]
      note B = parse_members.simps(2) [of n acc cs, unfolded sk list.case None option.case]
      show ?thesis unfolding A B ..
    next
      case (Some p)
      obtain k r1 where p: "p = (k, r1)" by (cases p)
      note pc = Some [unfolded p]
      show ?thesis
      proof (cases "skip_ws r1")
        case Nil
        note A = parse_members.simps(2) [of "Suc n" acc cs,
            unfolded sk list.case pc option.case prod.case Nil]
        note B = parse_members.simps(2) [of n acc cs,
            unfolded sk list.case pc option.case prod.case Nil]
        show ?thesis unfolding A B ..
      next
        case sk1: (Cons c1 r2)
        from skip_ws_Cons [OF sk] parse_chars_shorter [OF pc] skip_ws_Cons [OF sk1] b
        have l2: "2 * length r2 + 6 \<le> n"
          by simp
        then have V: "parse_value (Suc n) r2 = parse_value n r2"
          by (intro v) simp
        show ?thesis
        proof (cases "parse_value n r2")
          case None
          note A = parse_members.simps(2) [of "Suc n" acc cs,
              unfolded sk list.case pc option.case prod.case sk1 V None]
          note B = parse_members.simps(2) [of n acc cs,
              unfolded sk list.case pc option.case prod.case sk1 None]
          show ?thesis unfolding A B ..
        next
          case (Some p')
          obtain x r3 where p': "p' = (x, r3)" by (cases p')
          note pv = Some [unfolded p']
          show ?thesis
          proof (cases "skip_ws r3")
            case Nil
            note A = parse_members.simps(2) [of "Suc n" acc cs,
                unfolded sk list.case pc option.case prod.case sk1 V pv Nil]
            note B = parse_members.simps(2) [of n acc cs,
                unfolded sk list.case pc option.case prod.case sk1 pv Nil]
            show ?thesis unfolding A B ..
          next
            case sk3: (Cons c3 r4)
            from parse_value_shorter [OF pv] skip_ws_Cons [OF sk3] l2 have "2 * length r4 + 2 \<le> n"
              by simp
            then have M: "parse_members (Suc n) (obj_put k x acc) r4
                = parse_members n (obj_put k x acc) r4"
              by (rule m)
            note A = parse_members.simps(2) [of "Suc n" acc cs,
                unfolded sk list.case pc option.case prod.case sk1 V pv sk3 M]
            note B = parse_members.simps(2) [of n acc cs,
                unfolded sk list.case pc option.case prod.case sk1 pv sk3]
            show ?thesis unfolding A B ..
          qed
        qed
      qed
    qed
  qed
  ultimately show ?case by blast
qed

lemma parse_value_fuel:
  "2 * length cs + 1 \<le> n \<Longrightarrow> parse_value (n + k) cs = parse_value n cs"
proof (induction k)
  case 0
  show ?case by simp
next
  case (Suc k)
  from Suc.prems have "2 * length cs + 1 \<le> n + k" by simp
  with parse_fuel_step [of "n + k"] have "parse_value (Suc (n + k)) cs = parse_value (n + k) cs"
    by blast
  with Suc show ?case by simp
qed

text \<open>\<open>JSON_parse\<close> does not depend on the depth it allows, from the bound on.\<close>

lemma JSON_parse_fuel:
  "2 * length text + 2 \<le> n \<Longrightarrow>
   JSON_parse text =
     (case parse_value n text of
        None \<Rightarrow> Inl SyntaxError
      | Some (v, r) \<Rightarrow> if skip_ws r = [] then Inr v else Inl SyntaxError)"
proof -
  assume "2 * length text + 2 \<le> n"
  then obtain k where "n = (2 * length text + 2) + k"
    using le_Suc_ex by blast
  then have "parse_value n text = parse_value (2 * length text + 2) text"
    using parse_value_fuel [of "text" "2 * length text + 2" k] by simp
  then show ?thesis
    by (simp add: JSON_parse_def)
qed

subsection \<open>Constants\<close>

lemma no_answer_nonempty: "no_answer \<noteq> []"
  by (simp add: no_answer_def js_def)

lemma no_report_nonempty: "no_report \<noteq> []"
  by (simp add: no_report_def js_def)

lemma question_apology_nonempty: "question_apology \<noteq> []"
  by (simp add: question_apology_def js_def)

lemma report_apology_nonempty: "report_apology \<noteq> []"
  by (simp add: report_apology_def js_def)

subsection \<open>Failures of the local backend\<close>

text \<open>
  Claim C6. When the local backend answers with a status outside 200 to 299 and the text
  of its body is \<open>errText\<close>, \<open>queryOllama\<close> fails with the error whose message is
  \<open>Ollama error\<close>, the decimal status, a colon and \<open>errText\<close>: the message holds the status
  code and the body text as they are. The outcome is the same whatever the body stream
  holds: the stream is not read.
\<close>

theorem queryOllama_non_2xx:
  assumes "backend prompt = Inr res"
    and "\<not> (200 \<le> status res \<and> status res \<le> 299)"
    and "text_body res = Inr errText"
  shows "queryOllama backend prompt =
           Inl (Error (js ''Ollama error '' @ nat_to_dec (status res) @ js '': '' @ errText))
         \<and> sublist (nat_to_dec (status res))
              (js ''Ollama error '' @ nat_to_dec (status res) @ js '': '' @ errText)
         \<and> sublist errText (js ''Ollama error '' @ nat_to_dec (status res) @ js '': '' @ errText)
         \<and> (\<forall>stream. queryOllama (\<lambda>p. Inr (res\<lparr>body := stream\<rparr>)) prompt =
                      queryOllama backend prompt)"
proof -
  have a: "sublist (nat_to_dec (status res))
              (js ''Ollama error '' @ nat_to_dec (status res) @ js '': '' @ errText)"
    by (rule sublist_appendI)
  have b: "sublist errText (js ''Ollama error '' @ nat_to_dec (status res) @ js '': '' @ errText)"
    by (metis append_assoc sublist_append_leftI)
  show ?thesis
    using assms a b by (simp add: queryOllama_def ok_def)
qed

theorem queryOllama_non_2xx_witness:
  "queryOllama
     (\<lambda>p. Inr \<lparr>status = 404, text_body = Inr (js ''model not found''),
                body = Some ([js ''{}''], None)\<rparr>) (js ''hi'')
   = Inl (Error (js ''Ollama error 404: model not found''))"
proof -
  let ?res = "\<lparr>status = 404, text_body = Inr (js ''model not found''),
                body = Some ([js ''{}''], None)\<rparr>"
  have d: "nat_to_dec 404 = js ''404''"
    by (simp add: nat_to_dec_def int_digits.simps js_def)
  have "\<not> (200 \<le> status ?res \<and> status ?res \<le> 299)" by simp
  from queryOllama_non_2xx [of "\<lambda>p. Inr ?res" "js ''hi''" ?res "js ''model not found''", OF refl this]
  show ?thesis by (simp add: d js_def)
qed

subsection \<open>What the caller of \<open>askQuestion\<close> and \<open>generateReport\<close> sees\<close>

lemma read_loop_failure: "read_loop result chunks (Some e) = Inl e"
  by (induction chunks arbitrary: result) simp_all

text \<open>
  Claim C7. In both variants \<open>askQuestion\<close> always returns a string and never throws. When
  anything inside it fails, the string is
  \<open>Sorry, I encountered an error while processing your question.\<close> In the cloud variant
  that is a failure of \<open>getModel\<close>, of the request or of \<open>toText\<close>: of the \<open>try\<close> block; in
  the local variant a \<open>fetch\<close> that rejects, a status outside 200 to 299, or a read of the
  stream that rejects: any failure of \<open>queryOllama\<close>.
\<close>

theorem askQuestion_never_throws:
  "(\<exists>s. askQuestion_gemini cl q src m = Inr s)
   \<and> (\<exists>s. askQuestion_ollama backend q src m = Inr s)
   \<and> (askQuestion_try_gemini cl q src m = Inl e \<longrightarrow>
        askQuestion_gemini cl q src m = Inr question_apology)
   \<and> (getModel cl (if m then js ''gemini-2.5-pro'' else js ''gemini-2.5-flash'') = Inl e \<longrightarrow>
        askQuestion_gemini cl q src m = Inr question_apology)
   \<and> (getModel cl (if m then js ''gemini-2.5-pro'' else js ''gemini-2.5-flash'') = Inr model
        \<and> model (askQuestion_prompt_gemini q src m) = Inl e \<longrightarrow>
        askQuestion_gemini cl q src m = Inr question_apology)
   \<and> (getModel cl (if m then js ''gemini-2.5-pro'' else js ''gemini-2.5-flash'') = Inr model
        \<and> model (askQuestion_prompt_gemini q src m) = Inr res \<and> toText res = Inl e \<longrightarrow>
        askQuestion_gemini cl q src m = Inr question_apology)
   \<and> (queryOllama backend (askQuestion_prompt_ollama q src m) = Inl e \<longrightarrow>
        askQuestion_ollama backend q src m = Inr question_apology)
   \<and> (backend (askQuestion_prompt_ollama q src m) = Inl e \<longrightarrow>
        askQuestion_ollama backend q src m = Inr question_apology)
   \<and> (backend (askQuestion_prompt_ollama q src m) = Inr r \<and> \<not> ok r \<longrightarrow>
        askQuestion_ollama backend q src m = Inr question_apology)
   \<and> (backend (askQuestion_prompt_ollama q src m) = Inr r \<and> ok r \<and> body r = Some (chunks, Some e) \<longrightarrow>
        askQuestion_ollama backend q src m = Inr question_apology)"
proof -
  have total_g: "\<exists>s. askQuestion_gemini cl q src m = Inr s"
    by (auto simp: askQuestion_gemini_def try_catch_def split: sum.splits)
  have total_o: "\<exists>s. askQuestion_ollama backend q src m = Inr s"
    by (auto simp: askQuestion_ollama_def try_catch_def split: sum.splits)
  have g: "askQuestion_gemini cl q src m = Inr question_apology"
    if "askQuestion_try_gemini cl q src m = Inl e'" for e'
    using that by (simp add: askQuestion_gemini_def try_catch_def)
  have o: "askQuestion_ollama backend q src m = Inr question_apology"
    if "queryOllama backend (askQuestion_prompt_ollama q src m) = Inl e'" for e'
    using that by (simp add: askQuestion_ollama_def try_catch_def)
  have g1: "getModel cl (if m then js ''gemini-2.5-pro'' else js ''gemini-2.5-flash'') = Inl e \<longrightarrow>
        askQuestion_gemini cl q src m = Inr question_apology"
    by (auto simp: askQuestion_gemini_def askQuestion_try_gemini_def try_catch_def Let_def)
  have g2: "getModel cl (if m then js ''gemini-2.5-pro'' else js ''gemini-2.5-flash'') = Inr model
        \<and> model (askQuestion_prompt_gemini q src m) = Inl e \<longrightarrow>
        askQuestion_gemini cl q src m = Inr question_apology"
    by (auto simp: askQuestion_gemini_def askQuestion_try_gemini_def try_catch_def Let_def)
  have g3: "getModel cl (if m then js ''gemini-2.5-pro'' else js ''gemini-2.5-flash'') = Inr model
        \<and> model (askQuestion_prompt_gemini q src m) = Inr res \<and> toText res = Inl e \<longrightarrow>
        askQuestion_gemini cl q src m = Inr question_apology"
    by (auto simp: askQuestion_gemini_def askQuestion_try_gemini_def try_catch_def Let_def)
  have o1: "backend (askQuestion_prompt_ollama q src m) = Inl e \<longrightarrow>
        askQuestion_ollama backend q src m = Inr question_apology"
    by (auto simp: askQuestion_ollama_def try_catch_def queryOllama_def)
  have o2: "backend (askQuestion_prompt_ollama q src m) = Inr r \<and> \<not> ok r \<longrightarrow>
        askQuestion_ollama backend q src m = Inr question_apology"
  proof
    assume h: "backend (askQuestion_prompt_ollama q src m) = Inr r \<and> \<not> ok r"
    then obtain e' where "queryOllama backend (askQuestion_prompt_ollama q src m) = Inl e'"
      by (cases "text_body r") (simp_all add: queryOllama_def)
    then show "askQuestion_ollama backend q src m = Inr question_apology"
      by (rule o)
  qed
  have o3: "backend (askQuestion_prompt_ollama q src m) = Inr r \<and> ok r \<and> body r = Some (chunks, Some e) \<longrightarrow>
        askQuestion_ollama backend q src m = Inr question_apology"
    by (auto simp: askQuestion_ollama_def try_catch_def queryOllama_def read_loop_failure)
  from total_g total_o g [of e] o [of e] g1 g2 g3 o1 o2 o3 show ?thesis
    by blast
qed

theorem askQuestion_never_throws_witness:
  "askQuestion_gemini \<lparr>getGenerativeModel = None, models_generateContent = None\<rparr>
     (js ''What is X?'') (js ''X is a constant equal to 1'') False = Inr question_apology
   \<and> askQuestion_ollama (\<lambda>p. Inl TypeError) (js ''What is X?'') (js ''X is a constant equal to 1'') False
     = Inr question_apology"
proof -
  let ?cl = "\<lparr>getGenerativeModel = None, models_generateContent = None\<rparr>"
  let ?e = "Error (js ''Your @google/genai version has an unexpected API shape.'')"
  let ?q = "js ''What is X?''"
  let ?src = "js ''X is a constant equal to 1''"
  let ?backend = "\<lambda>p::jstring. Inl TypeError :: exn + http_response"
  have g: "getModel ?cl (if False then js ''gemini-2.5-pro'' else js ''gemini-2.5-flash'') = Inl ?e"
    by (simp add: getModel_def)
  have l: "?backend (askQuestion_prompt_ollama ?q ?src False) = Inl TypeError"
    by simp
  from askQuestion_never_throws [where cl = ?cl and q = ?q and src = ?src and m = False and e = ?e] g
  have cloud: "askQuestion_gemini ?cl ?q ?src False = Inr question_apology"
    by blast
  from askQuestion_never_throws [where backend = ?backend and q = ?q and src = ?src and m = False
      and e = TypeError] l
  have "askQuestion_ollama ?backend ?q ?src False = Inr question_apology"
    by blast
  with cloud show ?thesis
    by simp
qed

text \<open>
  Claim C8. In the local variant \<open>generateReport\<close> has no \<open>catch\<close>: an error of \<open>queryOllama\<close>
  is the error of \<open>generateReport\<close>. With a backend whose every request fails,
  \<open>generateReport\<close> throws where \<open>askQuestion\<close> returns its fixed string.
\<close>

theorem generateReport_ollama_propagates:
  "(queryOllama backend (generateReport_prompt_ollama src) = Inl e \<longrightarrow>
      generateReport_ollama backend src = Inl e)
   \<and> ((\<forall>p. backend p = Inl e) \<longrightarrow>
        generateReport_ollama backend src = Inl e
        \<and> askQuestion_ollama backend q src m = Inr question_apology)"
  by (simp add: generateReport_ollama_def askQuestion_ollama_def queryOllama_def try_catch_def)

theorem generateReport_ollama_propagates_witness:
  "generateReport_ollama
     (\<lambda>p. Inr \<lparr>status = 500, text_body = Inr (js ''boom''), body = None\<rparr>) (js ''notes'')
   = Inl (Error (js ''Ollama error 500: boom''))"
proof -
  let ?b = "\<lambda>p::jstring. Inr \<lparr>status = 500, text_body = Inr (js ''boom''), body = None\<rparr>
              :: exn + http_response"
  have d: "nat_to_dec 500 = js ''500''"
    by (simp add: nat_to_dec_def int_digits.simps js_def)
  have q: "queryOllama ?b (generateReport_prompt_ollama (js ''notes''))
           = Inl (Error (js ''Ollama error 500: boom''))"
    by (simp add: queryOllama_def ok_def d) (simp add: js_def)
  from generateReport_ollama_propagates [of ?b "js ''notes''" "Error (js ''Ollama error 500: boom'')"] q
  show ?thesis by blast
qed

text \<open>
  Claim C10. In the cloud variant \<open>askQuestion\<close> and \<open>generateReport\<close> never return the
  empty string: when the request succeeds and \<open>toText\<close> gives the empty string, they
  return \<open>I couldn't produce an answer.\<close> (with a typographic apostrophe) and
  \<open>No report text returned.\<close>
\<close>

theorem gemini_never_empty:
  "askQuestion_gemini cl q src m \<noteq> Inr []
   \<and> generateReport_gemini cl src \<noteq> Inr []
   \<and> (getModel cl (if m then js ''gemini-2.5-pro'' else js ''gemini-2.5-flash'') = Inr model
        \<and> model (askQuestion_prompt_gemini q src m) = Inr res \<and> toText res = Inr []
        \<longrightarrow> askQuestion_gemini cl q src m = Inr no_answer)
   \<and> (getModel cl (js ''gemini-2.5-pro'') = Inr model'
        \<and> model' (generateReport_prompt_gemini src) = Inr res' \<and> toText res' = Inr []
        \<longrightarrow> generateReport_gemini cl src = Inr no_report)"
  using no_answer_nonempty no_report_nonempty question_apology_nonempty report_apology_nonempty
  by (auto simp: askQuestion_gemini_def askQuestion_try_gemini_def generateReport_gemini_def
      generateReport_try_gemini_def try_catch_def Let_def split: sum.splits)

theorem gemini_never_empty_witness:
  "askQuestion_gemini
     \<lparr>getGenerativeModel =
        Some (\<lambda>name prompt. Inr (Obj [(js ''response'', Obj [(js ''text'', Str [])])])),
      models_generateContent = None\<rparr>
     (js ''What is X?'') (js ''X is 1'') False = Inr no_answer
   \<and> generateReport_gemini
     \<lparr>getGenerativeModel =
        Some (\<lambda>name prompt. Inr (Obj [(js ''response'', Obj [(js ''text'', Str [])])])),
      models_generateContent = None\<rparr>
     (js ''X is 1'') = Inr no_report"
proof -
  let ?res = "Obj [(js ''response'', Obj [(js ''text'', Str [])])]"
  let ?gen = "\<lambda>(name::jstring) (prompt::jstring). Inr ?res :: exn + jsval"
  let ?cl = "\<lparr>getGenerativeModel = Some ?gen, models_generateContent = None\<rparr>"
  have t: "toText ?res = Inr []"
    by (simp add: toText_def response_text_def opt_member_def get_own_def nullish_def js_def)
  have g: "getModel ?cl name = Inr (?gen name)" for name
    by (simp add: getModel_def)
  from gemini_never_empty [of ?cl "js ''What is X?''" "js ''X is 1''" False
      "?gen (js ''gemini-2.5-flash'')" ?res "?gen (js ''gemini-2.5-pro'')" ?res] t g
  show ?thesis by simp
qed

subsection \<open>Identifiers of flashcards\<close>

lemma digits_value_snoc: "digits_value (ds @ [c]) = 10 * digits_value ds + int (c - 48)"
  by (simp add: digits_value_def)

lemma int_digits_value: "0 \<le> n \<Longrightarrow> digits_value (int_digits n) = n"
proof (induction n rule: int_digits.induct)
  case (1 n)
  show ?case
  proof (cases "n < 10")
    case True
    with "1.prems" show ?thesis
      by (subst int_digits.simps) (simp add: digits_value_def)
  next
    case False
    with "1.prems" have ih: "digits_value (int_digits (n div 10)) = n div 10"
      by (intro "1.IH") auto
    from False show ?thesis
      by (subst int_digits.simps) (simp add: digits_value_snoc ih)
  qed
qed

lemma int_digits_are_digits: "0 \<le> n \<Longrightarrow> c \<in> set (int_digits n) \<Longrightarrow> is_digit c"
proof (induction n rule: int_digits.induct)
  case (1 n)
  show ?case
  proof (cases "n < 10")
    case True
    with "1.prems" show ?thesis
      by (subst (asm) int_digits.simps) (auto simp: is_digit_def)
  next
    case False
    from "1.prems"(2) False
    have "c \<in> set (int_digits (n div 10)) \<or> c = 48 + nat (n mod 10)"
      by (subst (asm) int_digits.simps) auto
    then show ?thesis
    proof
      assume "c \<in> set (int_digits (n div 10))"
      with False "1.prems"(1) show ?thesis
        by (intro "1.IH") auto
    next
      assume "c = 48 + nat (n mod 10)"
      then show ?thesis
        by (auto simp: is_digit_def)
    qed
  qed
qed

lemma nat_to_dec_inj: "nat_to_dec i = nat_to_dec j \<Longrightarrow> i = j"
proof -
  assume "nat_to_dec i = nat_to_dec j"
  then have "digits_value (int_digits (int i)) = digits_value (int_digits (int j))"
    by (simp add: nat_to_dec_def)
  then show "i = j"
    by (simp add: int_digits_value)
qed

lemma nat_to_dec_no_hyphen: "c \<in> set (nat_to_dec i) \<Longrightarrow> c \<noteq> 45"
  using int_digits_are_digits [of "int i" c] by (auto simp: nat_to_dec_def is_digit_def)

text \<open>The digits after the last hyphen of an identifier are those of the index.\<close>

lemma index_of_flashcard_id:
  "rev (takeWhile (\<lambda>c. c \<noteq> 45) (rev (flashcard_id now i))) = nat_to_dec i"
proof -
  let ?P = "\<lambda>c::nat. c \<noteq> 45"
  have r: "rev (flashcard_id now i) = rev (nat_to_dec i) @ 45 # rev (js ''flashcard-'' @ int_to_dec now)"
    by (simp add: flashcard_id_def)
  have "\<forall>c \<in> set (rev (nat_to_dec i)). ?P c"
    using nat_to_dec_no_hyphen by simp
  then have all: "takeWhile ?P (rev (nat_to_dec i)) = rev (nat_to_dec i)"
    by (simp only: takeWhile_eq_all_conv)
  have "takeWhile ?P (rev (nat_to_dec i) @ 45 # rev (js ''flashcard-'' @ int_to_dec now))
        = takeWhile ?P (rev (nat_to_dec i))"
    by (rule takeWhile_tail) simp
  with r all have "takeWhile ?P (rev (flashcard_id now i)) = rev (nat_to_dec i)"
    by simp
  then show ?thesis by simp
qed

lemma flashcard_id_inj: "flashcard_id now i = flashcard_id now' j \<Longrightarrow> i = j"
  using index_of_flashcard_id [of now i] index_of_flashcard_id [of now' j] nat_to_dec_inj
  by metis

lemma make_cards_index:
  "make_cards clock i xs = Inr cards \<Longrightarrow> c \<in> set cards \<Longrightarrow>
   \<exists>k\<ge>i. fc_id c = flashcard_id (clock k) k"
proof (induction xs arbitrary: i cards)
  case Nil
  then show ?case by simp
next
  case (Cons x xs)
  from Cons.prems(1) obtain q a rest where
    rest: "make_cards clock (Suc i) xs = Inr rest" and
    cards: "cards = \<lparr>fc_id = flashcard_id (clock i) i, fc_question = q, fc_answer = a\<rparr> # rest"
    by (auto split: sum.splits)
  show ?case
  proof (cases "c \<in> set rest")
    case True
    from Cons.IH [OF rest True] obtain k where "Suc i \<le> k" "fc_id c = flashcard_id (clock k) k"
      by blast
    then show ?thesis
      by (intro exI [of _ k]) simp
  next
    case False
    with Cons.prems(2) cards show ?thesis
      by (intro exI [of _ i]) auto
  qed
qed

lemma make_cards_distinct:
  "make_cards clock i xs = Inr cards \<Longrightarrow> distinct (map fc_id cards)"
proof (induction xs arbitrary: i cards)
  case Nil
  then show ?case by simp
next
  case (Cons x xs)
  from Cons.prems obtain q a rest where
    rest: "make_cards clock (Suc i) xs = Inr rest" and
    cards: "cards = \<lparr>fc_id = flashcard_id (clock i) i, fc_question = q, fc_answer = a\<rparr> # rest"
    by (auto split: sum.splits)
  have "flashcard_id (clock i) i \<notin> fc_id ` set rest"
  proof
    assume "flashcard_id (clock i) i \<in> fc_id ` set rest"
    then obtain c where "c \<in> set rest" "fc_id c = flashcard_id (clock i) i"
      by auto
    with make_cards_index [OF rest] obtain k where "Suc i \<le> k"
      "flashcard_id (clock k) k = flashcard_id (clock i) i"
      by metis
    then show False
      using flashcard_id_inj [of "clock k" k "clock i" i] by simp
  qed
  with Cons.IH [OF rest] cards show ?case
    by simp
qed

lemma extractFlashcards_gemini_distinct:
  "extractFlashcards_gemini clock text = Inr cards \<Longrightarrow> distinct (map fc_id cards)"
  by (auto simp: extractFlashcards_gemini_def make_cards_distinct split: sum.splits if_splits)

text \<open>
  Claim C9. \<open>generateFlashcards\<close> of the cloud variant always returns an array, and the
  \<open>id\<close> fields of the records of one array are pairwise distinct, whatever the clock
  returns: the digits after the last hyphen are those of the position.
\<close>

theorem flashcard_ids_distinct:
  "(\<exists>cards. generateFlashcards_gemini cl clock src = Inr cards)
   \<and> (\<forall>cards. generateFlashcards_gemini cl clock src = Inr cards \<longrightarrow> distinct (map fc_id cards))"
  by (auto simp: generateFlashcards_gemini_def generateFlashcards_try_gemini_def try_catch_def
      extractFlashcards_gemini_distinct split: sum.splits)

theorem flashcard_ids_distinct_witness:
  \<open>generateFlashcards_gemini
     (replying_client (Str (js ''[{"question":"a","answer":"b"},{"question":"c"}]'')))
     (\<lambda>k. 1762135200123) (js ''notes'')
   = Inr [\<lparr>fc_id = js ''flashcard-1762135200123-0'', fc_question = js ''a'', fc_answer = js ''b''\<rparr>,
          \<lparr>fc_id = js ''flashcard-1762135200123-1'', fc_question = js ''c'', fc_answer = []\<rparr>]
   \<and> distinct [js ''flashcard-1762135200123-0'', js ''flashcard-1762135200123-1'']\<close>
proof -
  let ?cl = \<open>replying_client (Str (js ''[{"question":"a","answer":"b"},{"question":"c"}]''))\<close>
  let ?cards = "[\<lparr>fc_id = js ''flashcard-1762135200123-0'', fc_question = js ''a'', fc_answer = js ''b''\<rparr>,
                 \<lparr>fc_id = js ''flashcard-1762135200123-1'', fc_question = js ''c'', fc_answer = []\<rparr>]"
  have run: "generateFlashcards_gemini ?cl (\<lambda>k. 1762135200123) (js ''notes'') = Inr ?cards"
    by code_simp
  from flashcard_ids_distinct [of ?cl "\<lambda>k. 1762135200123" "js ''notes''"] run
  have "distinct (map fc_id ?cards)"
    by blast
  with run show ?thesis
    by simp
qed

subsection \<open>The Response Normalizer\<close>

lemma elements_to_strings_Str: "elements_to_strings (map Str ss) = Inr ss"
  by (induction ss) simp_all

lemma join_parts_strings:
  "join_parts (map (\<lambda>s. Obj [(js ''text'', Str s)]) ss)
   = Inr (join_with [10] (filter (\<lambda>s. s \<noteq> []) ss))"
proof -
  have "filter truthy (map (\<lambda>p. opt_member p (js ''text'')) (map (\<lambda>s. Obj [(js ''text'', Str s)]) ss))
        = map Str (filter (\<lambda>s. s \<noteq> []) ss)"
    by (induction ss) (simp_all add: opt_member_def nullish_def get_own_def)
  then show ?thesis
    by (simp add: join_parts_def elements_to_strings_Str)
qed

lemma toText_parts:
  assumes "\<forall>src r. response_text res \<noteq> Fun src r" and "\<forall>s. response_text res \<noteq> Str s"
  shows "toText res = (case candidate_parts res of Arr ps \<Rightarrow> join_parts ps | _ \<Rightarrow> Inr [])"
  using assms
  by (cases "response_text res"; cases "candidate_parts res")
     (simp_all add: toText_def split: sum.splits)

text \<open>
  Claim C4, amended. \<open>toText\<close> tries the shapes in a fixed order. A \<open>text\<close> of the response
  that is a function is called and \<open>toText\<close> ends as the call does: with the string it
  returns, or with what it throws. Otherwise a \<open>text\<close> that is a string is returned as it
  is. Otherwise, when the parts of the first candidate are an array, the truthy \<open>text\<close>
  fields of the parts are joined with line feeds (for parts whose texts are strings: the
  non-empty ones, in order). Otherwise the result is the empty string. \<open>toText\<close> throws
  only when the accessor it calls throws, or when a part's text cannot be converted to
  a string. The four sample shapes of the claim give \<open>hi\<close>, \<open>hi\<close>, \<open>a\<close> line feed \<open>b\<close>, and
  the empty string.
\<close>

theorem toText_resolution:
  "(response_text res = Fun src r \<longrightarrow> toText res = r)
   \<and> (response_text res = Str s \<longrightarrow> toText res = Inr s)
   \<and> ((\<forall>src r. response_text res \<noteq> Fun src r) \<and> (\<forall>s. response_text res \<noteq> Str s) \<longrightarrow>
        (candidate_parts res = Arr ps \<longrightarrow> toText res = join_parts ps)
        \<and> (candidate_parts res = Arr (map (\<lambda>s. Obj [(js ''text'', Str s)]) ss) \<longrightarrow>
             toText res = Inr (join_with [10] (filter (\<lambda>s. s \<noteq> []) ss)))
        \<and> ((\<forall>ps. candidate_parts res \<noteq> Arr ps) \<longrightarrow> toText res = Inr []))
   \<and> (toText res = Inl e \<longrightarrow>
        (\<exists>src. response_text res = Fun src (Inl e))
        \<or> (\<exists>ps. candidate_parts res = Arr ps \<and> join_parts ps = Inl e))
   \<and> toText (Obj [(js ''response'', Obj [(js ''text'', Fun src' (Inr (js ''hi'')))])]) = Inr (js ''hi'')
   \<and> toText (Obj [(js ''response'', Obj [(js ''text'', Str (js ''hi''))])]) = Inr (js ''hi'')
   \<and> toText (Obj [(js ''response'', Obj [(js ''candidates'',
         Arr [Obj [(js ''content'', Obj [(js ''parts'',
           Arr [Obj [(js ''text'', Str (js ''a''))], Obj [(js ''text'', Str (js ''b''))]])])]])])])
       = Inr (js ''a'' @ [10] @ js ''b'')
   \<and> toText Undefined = Inr [] \<and> toText Null = Inr [] \<and> toText (Obj []) = Inr []
   \<and> toText (Obj [(js ''response'', Obj [(js ''text'', Num (Finite 5))])]) = Inr []"
proof -
  have fun_case: "response_text res = Fun src r \<longrightarrow> toText res = r"
    by (simp add: toText_def)
  have str_case: "response_text res = Str s \<longrightarrow> toText res = Inr s"
    by (simp add: toText_def)
  have parts_case: "(\<forall>src r. response_text res \<noteq> Fun src r) \<and> (\<forall>s. response_text res \<noteq> Str s) \<longrightarrow>
        (candidate_parts res = Arr ps \<longrightarrow> toText res = join_parts ps)
        \<and> (candidate_parts res = Arr (map (\<lambda>s. Obj [(js ''text'', Str s)]) ss) \<longrightarrow>
             toText res = Inr (join_with [10] (filter (\<lambda>s. s \<noteq> []) ss)))
        \<and> ((\<forall>ps. candidate_parts res \<noteq> Arr ps) \<longrightarrow> toText res = Inr [])"
  proof (intro impI conjI)
    assume h: "(\<forall>src r. response_text res \<noteq> Fun src r) \<and> (\<forall>s. response_text res \<noteq> Str s)"
    then have eq: "toText res = (case candidate_parts res of Arr ps \<Rightarrow> join_parts ps | _ \<Rightarrow> Inr [])"
      by (intro toText_parts) simp_all
    show "toText res = join_parts ps" if "candidate_parts res = Arr ps"
      using eq that by simp
    show "toText res = Inr (join_with [10] (filter (\<lambda>s. s \<noteq> []) ss))"
      if "candidate_parts res = Arr (map (\<lambda>s. Obj [(js ''text'', Str s)]) ss)"
      using eq that by (simp add: join_parts_strings)
    show "toText res = Inr []" if "\<forall>ps. candidate_parts res \<noteq> Arr ps"
      using eq that by (cases "candidate_parts res") simp_all
  qed
  have throws: "toText res = Inl e \<longrightarrow>
        (\<exists>src. response_text res = Fun src (Inl e))
        \<or> (\<exists>ps. candidate_parts res = Arr ps \<and> join_parts ps = Inl e)"
    by (cases "response_text res"; cases "candidate_parts res")
       (auto simp: toText_def split: sum.splits)
  have ex1: "toText (Obj [(js ''response'', Obj [(js ''text'', Fun src' (Inr (js ''hi'')))])]) = Inr (js ''hi'')"
    by (simp add: toText_def response_text_def opt_member_def nullish_def get_own_def)
  have ex2: "toText (Obj [(js ''response'', Obj [(js ''text'', Str (js ''hi''))])]) = Inr (js ''hi'')"
    by (simp add: toText_def response_text_def opt_member_def nullish_def get_own_def)
  have ex3: "toText (Obj [(js ''response'', Obj [(js ''candidates'',
         Arr [Obj [(js ''content'', Obj [(js ''parts'',
           Arr [Obj [(js ''text'', Str (js ''a''))], Obj [(js ''text'', Str (js ''b''))]])])]])])])
       = Inr (js ''a'' @ [10] @ js ''b'')"
    by code_simp
  have ex4: "toText Undefined = Inr [] \<and> toText Null = Inr [] \<and> toText (Obj []) = Inr []
     \<and> toText (Obj [(js ''response'', Obj [(js ''text'', Num (Finite 5))])]) = Inr []"
    by code_simp
  from fun_case str_case parts_case throws ex1 ex2 ex3 ex4 show ?thesis
    by blast
qed

theorem toText_resolution_witness:
  "toText (Obj [(js ''response'', Obj [(js ''candidates'',
         Arr [Obj [(js ''content'', Obj [(js ''parts'',
           Arr [Obj [(js ''text'', Str (js ''a''))], Obj [(js ''text'', Str [])],
                Obj [(js ''text'', Str (js ''b''))]])])]])])])
   = Inr (js ''a'' @ [10] @ js ''b'')"
proof -
  let ?res = "Obj [(js ''response'', Obj [(js ''candidates'',
         Arr [Obj [(js ''content'', Obj [(js ''parts'',
           Arr [Obj [(js ''text'', Str (js ''a''))], Obj [(js ''text'', Str [])],
                Obj [(js ''text'', Str (js ''b''))]])])]])])]"
  have t: "response_text ?res = Undefined"
    by code_simp
  have p: "candidate_parts ?res = Arr (map (\<lambda>s. Obj [(js ''text'', Str s)]) [js ''a'', [], js ''b''])"
    by code_simp
  from toText_resolution [of ?res _ _ _ _ "[js ''a'', [], js ''b'']"] t p
  have "toText ?res = Inr (join_with [10] (filter (\<lambda>s. s \<noteq> []) [js ''a'', [], js ''b'']))"
    by simp
  then show ?thesis
    by (simp add: js_def)
qed

text \<open>As stated, the claim fails: an accessor that throws (the SDK's does for a blocked
  response) makes \<open>toText\<close> throw.\<close>

theorem toText_throws_counterexample:
  "toText (Obj [(js ''response'',
        Obj [(js ''text'', Fun (js ''text() { throw new Error(m) }'')
                              (Inl (Error (js ''Response was blocked''))))])])
   = Inl (Error (js ''Response was blocked''))"
  by (simp add: toText_def response_text_def opt_member_def nullish_def get_own_def)

subsection \<open>The Structured Extractor on a JSON array\<close>

lemma trim_Nil: "trim [] = []"
  by (simp add: trim_def)

lemma coerce_field_Str: "opt_member item name = Str s \<Longrightarrow> coerce_field item name = Inr (trim s)"
  by (simp add: coerce_field_def nullish_def)

lemma coerce_field_nullish: "nullish (opt_member item name) \<Longrightarrow> coerce_field item name = Inr []"
  by (simp add: coerce_field_def trim_Nil)

lemma make_cards_converts:
  "\<forall>x \<in> set xs. converts x \<Longrightarrow>
   make_cards clock i xs = Inr (map (\<lambda>(k, x). coerced_card clock k x) (enumerate i xs))"
proof (induction xs arbitrary: i)
  case Nil
  then show ?case by simp
next
  case (Cons x xs)
  from Cons.prems have "converts x" by simp
  then obtain q a where q: "coerce_field x (js ''question'') = Inr q"
    and a: "coerce_field x (js ''answer'') = Inr a"
    by (cases "coerce_field x (js ''question'')"; cases "coerce_field x (js ''answer'')")
       (simp_all add: converts_def)
  from Cons.prems have "make_cards clock (Suc i) xs
      = Inr (map (\<lambda>(k, x). coerced_card clock k x) (enumerate (Suc i) xs))"
    by (intro Cons.IH) simp
  with q a show ?case
    by (simp add: coerced_card_def field_text_def)
qed

lemma make_cards_fails:
  "\<exists>x \<in> set xs. \<not> converts x \<Longrightarrow> isl (make_cards clock i xs)"
proof (induction xs arbitrary: i)
  case Nil
  then show ?case by simp
next
  case (Cons x xs)
  show ?case
  proof (cases "converts x")
    case False
    then show ?thesis
      by (auto simp: converts_def split: sum.splits)
  next
    case True
    with Cons.prems have "\<exists>x \<in> set xs. \<not> converts x" by simp
    then have "isl (make_cards clock (Suc i) xs)" by (rule Cons.IH)
    then show ?thesis
      by (auto split: sum.splits)
  qed
qed

lemma best_effort_array_of_array: "JSON_parse text = Inr (Arr xs) \<Longrightarrow> best_effort_array text = Some xs"
  by (simp add: best_effort_array_def)

lemma generateFlashcards_gemini_text:
  assumes "getModel cl (js ''gemini-2.5-flash'') = Inr model"
    and "model (generateFlashcards_prompt_gemini src) = Inr res"
    and "toText res = Inr t"
  shows "generateFlashcards_gemini cl clock src =
           (case extractFlashcards_gemini clock (trim t) of
              Inl e \<Rightarrow> Inr []
            | Inr cards \<Rightarrow> Inr cards)"
  using assms
  by (simp add: generateFlashcards_gemini_def generateFlashcards_try_gemini_def try_catch_def)

lemma generateFlashcards_ollama_text:
  "queryOllama backend (generateFlashcards_prompt_ollama src) = Inr text \<Longrightarrow>
   generateFlashcards_ollama backend src = Inr (extractFlashcards_ollama text)"
  by (simp add: generateFlashcards_ollama_def)

lemma extractFlashcards_gemini_of_array:
  assumes "JSON_parse text = Inr (Arr xs)"
  shows "xs = [] \<Longrightarrow> extractFlashcards_gemini clock text = Inr [summary_card clock text]"
    and "xs \<noteq> [] \<Longrightarrow> \<forall>x \<in> set xs. converts x \<Longrightarrow>
         extractFlashcards_gemini clock text
         = Inr (map (\<lambda>(i, x). coerced_card clock i x) (enumerate 0 xs))"
    and "\<exists>x \<in> set xs. \<not> converts x \<Longrightarrow> isl (extractFlashcards_gemini clock text)"
proof -
  have arr: "best_effort_array text = Some xs"
    using assms by (rule best_effort_array_of_array)
  show "extractFlashcards_gemini clock text = Inr [summary_card clock text]" if "xs = []"
    using arr that by (simp add: extractFlashcards_gemini_def summary_card_def)
  show "extractFlashcards_gemini clock text
        = Inr (map (\<lambda>(i, x). coerced_card clock i x) (enumerate 0 xs))"
    if ne: "xs \<noteq> []" and conv: "\<forall>x \<in> set xs. converts x"
  proof -
    from conv have mc: "make_cards clock 0 xs
        = Inr (map (\<lambda>(i, x). coerced_card clock i x) (enumerate 0 xs))"
      by (simp add: make_cards_converts)
    from ne have "map (\<lambda>(i, x). coerced_card clock i x) (enumerate 0 xs) \<noteq> []"
      by (cases xs) simp_all
    with arr mc show ?thesis
      by (simp add: extractFlashcards_gemini_def)
  qed
  show "isl (extractFlashcards_gemini clock text)" if "\<exists>x \<in> set xs. \<not> converts x"
  proof -
    from that have "isl (make_cards clock 0 xs)" by (rule make_cards_fails)
    with arr show ?thesis
      by (auto simp: extractFlashcards_gemini_def split: sum.splits)
  qed
qed

lemma field_text_rendered:
  "\<not> nullish (opt_member x name) \<Longrightarrow> ToString (opt_member x name) = Inr s \<Longrightarrow>
   field_text x name = trim s"
  by (simp add: field_text_def coerce_field_def)

lemma converts_iff:
  "converts x \<longleftrightarrow>
     (\<forall>name \<in> {js ''question'', js ''answer''}.
        nullish (opt_member x name) \<or> \<not> isl (ToString (opt_member x name)))"
  by (auto simp: converts_def coerce_field_def Let_def split: sum.splits)

text \<open>
  Claim C1, amended. Let the normalized text of the response parse as a JSON array.
  \<open>generateFlashcards\<close> of the local variant returns the elements of the array as they
  are, with no coercion. \<open>generateFlashcards\<close> of the cloud variant returns the one \<open>Summary\<close>
  record for the empty array; for a non-empty array all of whose elements convert, it
  returns one record per element, in the array's order, whose question and answer are
  \<open>String(field ?? "").trim()\<close>: a field that is a string is trimmed, a field that is
  missing, \<open>undefined\<close> or \<open>null\<close> gives the empty string, and any other value that \<open>String\<close>
  converts is rendered by it and trimmed (7 gives \<open>7\<close>), not blanked. An element converts
  when each of its two fields is missing, \<open>undefined\<close> or \<open>null\<close>, or is converted by \<open>String\<close>
  without a throw. When an element does not convert, the \<open>map\<close> throws, the \<open>catch\<close> of
  \<open>generateFlashcards\<close> takes the error, and \<open>generateFlashcards\<close> returns the empty array.
\<close>

theorem generateFlashcards_json_array:
  assumes "JSON_parse text = Inr (Arr xs)"
  shows "(queryOllama backend (generateFlashcards_prompt_ollama src) = Inr text \<longrightarrow>
            generateFlashcards_ollama backend src = Inr xs)
         \<and> (getModel cl (js ''gemini-2.5-flash'') = Inr model
              \<and> model (generateFlashcards_prompt_gemini src) = Inr res
              \<and> toText res = Inr t \<and> trim t = text \<longrightarrow>
              (xs = [] \<longrightarrow>
                 generateFlashcards_gemini cl clock src = Inr [summary_card clock text])
              \<and> (xs \<noteq> [] \<and> (\<forall>x \<in> set xs. converts x) \<longrightarrow>
                   generateFlashcards_gemini cl clock src
                   = Inr (map (\<lambda>(i, x). coerced_card clock i x) (enumerate 0 xs)))
              \<and> ((\<exists>x \<in> set xs. \<not> converts x) \<longrightarrow>
                   generateFlashcards_gemini cl clock src = Inr []))
         \<and> (\<forall>x name s. opt_member x name = Str s \<longrightarrow> field_text x name = trim s)
         \<and> (\<forall>x name. nullish (opt_member x name) \<longrightarrow> field_text x name = [])
         \<and> (\<forall>x name s. \<not> nullish (opt_member x name) \<and> ToString (opt_member x name) = Inr s \<longrightarrow>
               field_text x name = trim s)
         \<and> (\<forall>x. converts x \<longleftrightarrow>
               (\<forall>name \<in> {js ''question'', js ''answer''}.
                  nullish (opt_member x name) \<or> \<not> isl (ToString (opt_member x name))))"
proof -
  have local: "queryOllama backend (generateFlashcards_prompt_ollama src) = Inr text \<longrightarrow>
      generateFlashcards_ollama backend src = Inr xs"
    using assms by (simp add: generateFlashcards_ollama_text extractFlashcards_ollama_def)
  have cloud: "(xs = [] \<longrightarrow>
         generateFlashcards_gemini cl clock src = Inr [summary_card clock text])
      \<and> (xs \<noteq> [] \<and> (\<forall>x \<in> set xs. converts x) \<longrightarrow>
           generateFlashcards_gemini cl clock src
           = Inr (map (\<lambda>(i, x). coerced_card clock i x) (enumerate 0 xs)))
      \<and> ((\<exists>x \<in> set xs. \<not> converts x) \<longrightarrow>
           generateFlashcards_gemini cl clock src = Inr [])"
    if ready: "getModel cl (js ''gemini-2.5-flash'') = Inr model
        \<and> model (generateFlashcards_prompt_gemini src) = Inr res
        \<and> toText res = Inr t \<and> trim t = text"
  proof -
    from ready have g: "generateFlashcards_gemini cl clock src =
        (case extractFlashcards_gemini clock text of Inl e \<Rightarrow> Inr [] | Inr cards \<Rightarrow> Inr cards)"
      using generateFlashcards_gemini_text [of cl model src res t clock] by simp
    have a: "generateFlashcards_gemini cl clock src = Inr [summary_card clock text]" if "xs = []"
      using extractFlashcards_gemini_of_array(1) [OF assms that, of clock] g by simp
    have b: "generateFlashcards_gemini cl clock src
        = Inr (map (\<lambda>(i, x). coerced_card clock i x) (enumerate 0 xs))"
      if "xs \<noteq> [] \<and> (\<forall>x \<in> set xs. converts x)"
      using extractFlashcards_gemini_of_array(2) [OF assms, of clock] that g by simp
    have c: "generateFlashcards_gemini cl clock src = Inr []" if "\<exists>x \<in> set xs. \<not> converts x"
      using extractFlashcards_gemini_of_array(3) [OF assms that, of clock] g
      by (cases "extractFlashcards_gemini clock text") simp_all
    from a b c show ?thesis by blast
  qed
  have strs: "\<forall>x name s. opt_member x name = Str s \<longrightarrow> field_text x name = trim s"
    by (simp add: field_text_def coerce_field_Str)
  have nulls: "\<forall>x name. nullish (opt_member x name) \<longrightarrow> field_text x name = []"
    by (simp add: field_text_def coerce_field_nullish)
  have others: "\<forall>x name s. \<not> nullish (opt_member x name) \<and> ToString (opt_member x name) = Inr s \<longrightarrow>
      field_text x name = trim s"
    by (simp add: field_text_rendered)
  have conv: "\<forall>x. converts x \<longleftrightarrow>
      (\<forall>name \<in> {js ''question'', js ''answer''}.
         nullish (opt_member x name) \<or> \<not> isl (ToString (opt_member x name)))"
    using converts_iff by blast
  from local cloud strs nulls others conv show ?thesis
    by blast
qed

theorem generateFlashcards_json_array_witness:
  \<open>generateFlashcards_gemini
     (replying_client (Str (js ''[{"question":" q? ","answer":7},{"answer":null},"x"]'')))
     sample_clock (js ''notes'')
   = Inr [\<lparr>fc_id = js ''flashcard-1762135200123-0'', fc_question = js ''q?'', fc_answer = js ''7''\<rparr>,
          \<lparr>fc_id = js ''flashcard-1762135200124-1'', fc_question = [], fc_answer = []\<rparr>,
          \<lparr>fc_id = js ''flashcard-1762135200125-2'', fc_question = [], fc_answer = []\<rparr>]
   \<and> generateFlashcards_ollama
     (answering_backend (js ''[{"question":" q? ","answer":7},{"answer":null},"x"]'')) (js ''notes'')
   = Inr [Obj [(js ''question'', Str (js '' q? '')), (js ''answer'', Num (Finite 7))],
          Obj [(js ''answer'', Null)], Str (js ''x'')]
   \<and> generateFlashcards_gemini
     (replying_client (Str (js ''[{"question":{"toString":1},"answer":"a"}]'')))
     sample_clock (js ''notes'')
   = Inr []\<close>
proof -
  let ?t1 = \<open>js ''[{"question":" q? ","answer":7},{"answer":null},"x"]''\<close>
  let ?xs1 = "[Obj [(js ''question'', Str (js '' q? '')), (js ''answer'', Num (Finite 7))],
               Obj [(js ''answer'', Null)], Str (js ''x'')]"
  let ?t2 = \<open>js ''[{"question":{"toString":1},"answer":"a"}]''\<close>
  let ?xs2 = "[Obj [(js ''question'', Obj [(js ''toString'', Num (Finite 1))]),
                    (js ''answer'', Str (js ''a''))]]"
  let ?res = "\<lambda>t. Obj [(js ''response'', Obj [(js ''text'', Str t)])]"
  let ?model = "\<lambda>t (prompt::jstring). Inr (?res t) :: exn + jsval"
  have parse1: "JSON_parse ?t1 = Inr (Arr ?xs1)"
    by code_simp
  have parse2: "JSON_parse ?t2 = Inr (Arr ?xs2)"
    by code_simp
  have conv1: "?xs1 \<noteq> [] \<and> (\<forall>x \<in> set ?xs1. converts x)"
    by code_simp
  have conv2: "\<exists>x \<in> set ?xs2. \<not> converts x"
    by code_simp
  have cards: "map (\<lambda>(i, x). coerced_card sample_clock i x) (enumerate 0 ?xs1)
     = [\<lparr>fc_id = js ''flashcard-1762135200123-0'', fc_question = js ''q?'', fc_answer = js ''7''\<rparr>,
        \<lparr>fc_id = js ''flashcard-1762135200124-1'', fc_question = [], fc_answer = []\<rparr>,
        \<lparr>fc_id = js ''flashcard-1762135200125-2'', fc_question = [], fc_answer = []\<rparr>]"
    by code_simp
  have g: "getModel (replying_client (Str t)) (js ''gemini-2.5-flash'') = Inr (?model t)" for t
    by (simp add: getModel_def replying_client_def)
  have tt: "toText (?res t) = Inr t" for t
    by (simp add: toText_def response_text_def opt_member_def nullish_def get_own_def)
  have tr1: "trim ?t1 = ?t1" and tr2: "trim ?t2 = ?t2"
    by code_simp+
  have q: "queryOllama (answering_backend ?t1) (generateFlashcards_prompt_ollama (js ''notes'')) = Inr ?t1"
    by code_simp
  from generateFlashcards_json_array [OF parse1, where cl = "replying_client (Str ?t1)"
      and model = "?model ?t1" and src = "js ''notes''" and res = "?res ?t1" and t = ?t1
      and clock = sample_clock and backend = "answering_backend ?t1"]
    g [of ?t1] tt [of ?t1] tr1 conv1 q
  have first: "generateFlashcards_gemini (replying_client (Str ?t1)) sample_clock (js ''notes'')
      = Inr (map (\<lambda>(i, x). coerced_card sample_clock i x) (enumerate 0 ?xs1))
    \<and> generateFlashcards_ollama (answering_backend ?t1) (js ''notes'') = Inr ?xs1"
    by blast
  from generateFlashcards_json_array [OF parse2, where cl = "replying_client (Str ?t2)"
      and model = "?model ?t2" and src = "js ''notes''" and res = "?res ?t2" and t = ?t2
      and clock = sample_clock]
    g [of ?t2] tt [of ?t2] tr2 conv2
  have second: "generateFlashcards_gemini (replying_client (Str ?t2)) sample_clock (js ''notes'') = Inr []"
    by blast
  from first second show ?thesis
    unfolding cards by simp
qed

text \<open>
  As stated, the claim fails. On \<open>[{"question":7,"answer":" a "}]\<close> the specification's
  coercion gives the empty question; \<open>generateFlashcards\<close> of the cloud variant gives the
  question \<open>7\<close>, and that of the local variant returns the object unchanged. On \<open>[]\<close> the
  cloud variant returns one record, not the array's zero elements.
\<close>

theorem generateFlashcards_json_array_counterexample:
  \<open>JSON_parse (js ''[{"question":7,"answer":" a "}]'')
     = Inr (Arr [Obj [(js ''question'', Num (Finite 7)), (js ''answer'', Str (js '' a ''))]])
   \<and> spec_question_answer (Obj [(js ''question'', Num (Finite 7)), (js ''answer'', Str (js '' a ''))])
     = ([], js ''a'')
   \<and> generateFlashcards_gemini (replying_client (Str (js ''[{"question":7,"answer":" a "}]'')))
       sample_clock (js ''notes'')
     = Inr [\<lparr>fc_id = js ''flashcard-1762135200123-0'', fc_question = js ''7'', fc_answer = js ''a''\<rparr>]
   \<and> generateFlashcards_ollama (answering_backend (js ''[{"question":7,"answer":" a "}]'')) (js ''notes'')
     = Inr [Obj [(js ''question'', Num (Finite 7)), (js ''answer'', Str (js '' a ''))]]
   \<and> JSON_parse (js ''[]'') = Inr (Arr [])
   \<and> generateFlashcards_gemini (replying_client (Str (js ''[]''))) sample_clock (js ''notes'')
     = Inr [\<lparr>fc_id = js ''flashcard-1762135200123-0'', fc_question = js ''Summary'', fc_answer = js ''[]''\<rparr>]\<close>
  by code_simp

subsection \<open>The Structured Extractor on a text without an array\<close>

lemma is_json_array_iff: "is_json_array s \<longleftrightarrow> (\<exists>xs. JSON_parse s = Inr (Arr xs))"
  by (auto simp: is_json_array_def split: sum.splits jsval.splits)

lemma contains_json_array_iff:
  "contains_json_array text \<longleftrightarrow> (\<exists>s. sublist s text \<and> is_json_array s)"
  by (auto simp: contains_json_array_def list_ex_iff)

text \<open>What the pattern matches is a piece of the text.\<close>

lemma match_array_sublist: "match_array text = Some m \<Longrightarrow> sublist m text"
proof -
  assume m: "match_array text = Some m"
  let ?P = "\<lambda>c::nat. c \<noteq> 91"
  let ?Q = "\<lambda>c::nat. c \<noteq> 93"
  from m obtain b rest where d: "dropWhile ?P text = b # rest"
    by (cases "dropWhile ?P text") (simp_all add: match_array_def)
  let ?inner = "rev (dropWhile ?Q (rev rest))"
  from m d have mm: "m = b # ?inner"
    by (simp add: match_array_def Let_def split: if_splits)
  have rest: "rest = ?inner @ rev (takeWhile ?Q (rev rest))"
    by (metis rev_append rev_rev_ident takeWhile_dropWhile_id)
  have "text = takeWhile ?P text @ dropWhile ?P text"
    by simp
  with d have "text = takeWhile ?P text @ b # rest"
    by simp
  with rest have "text = takeWhile ?P text @ (b # ?inner) @ rev (takeWhile ?Q (rev rest))"
    by simp
  with mm have "text = takeWhile ?P text @ m @ rev (takeWhile ?Q (rev rest))"
    by simp
  then show "sublist m text"
    unfolding sublist_def by blast
qed

lemma best_effort_array_None:
  assumes "\<not> contains_json_array text"
  shows "best_effort_array text = None"
proof -
  from assms have no: "\<not> is_json_array s" if "sublist s text" for s
    using that by (auto simp: contains_json_array_iff)
  have whole: "\<not> is_json_array text"
    by (rule no) simp
  have part: "\<not> is_json_array m" if "match_array text = Some m" for m
    using that by (intro no match_array_sublist)
  show ?thesis
  proof (cases "JSON_parse text")
    case (Inr parsed)
    with whole show ?thesis
      by (cases parsed) (simp_all add: best_effort_array_def is_json_array_def)
  next
    case (Inl err)
    show ?thesis
    proof (cases "match_array text")
      case None
      with Inl show ?thesis by (simp add: best_effort_array_def)
    next
      case (Some m)
      with part have "\<not> is_json_array m" by simp
      with Inl Some show ?thesis
        by (auto simp: best_effort_array_def is_json_array_def split: sum.splits jsval.splits)
    qed
  qed
qed

text \<open>
  Claim C3. For a text that contains no valid JSON array, the extractor of each variant
  returns exactly one fallback record, whose question is \<open>Summary\<close> and whose answer is the
  text (in the cloud variant its first 1000 code units). On such a text nothing fails:
  the errors of both \<open>JSON.parse\<close> calls are caught and the \<open>map\<close> runs over no element. So
  \<open>generateFlashcards\<close>, once the backend has given it this text, returns exactly that one
  record, in both variants.
\<close>

theorem generateFlashcards_without_array:
  assumes "\<not> contains_json_array text"
  shows "extractFlashcards_gemini clock text = Inr [summary_card clock text]
         \<and> extractFlashcards_ollama text = [summary_object text]
         \<and> (getModel cl (js ''gemini-2.5-flash'') = Inr model
              \<and> model (generateFlashcards_prompt_gemini src) = Inr res
              \<and> toText res = Inr t \<and> trim t = text \<longrightarrow>
              generateFlashcards_gemini cl clock src = Inr [summary_card clock text])
         \<and> (queryOllama backend (generateFlashcards_prompt_ollama src) = Inr text \<longrightarrow>
              generateFlashcards_ollama backend src = Inr [summary_object text])
         \<and> fc_question (summary_card clock text) = js ''Summary''
         \<and> fc_answer (summary_card clock text) = take 1000 text
         \<and> summary_object text
           = Obj [(js ''question'', Str (js ''Summary'')), (js ''answer'', Str text)]"
proof -
  from assms have "best_effort_array text = None"
    by (rule best_effort_array_None)
  then have cloud: "extractFlashcards_gemini clock text = Inr [summary_card clock text]"
    by (simp add: extractFlashcards_gemini_def summary_card_def)
  from assms have "\<not> is_json_array text"
    by (auto simp: contains_json_array_iff)
  then have local: "extractFlashcards_ollama text = [summary_object text]"
    by (auto simp: extractFlashcards_ollama_def summary_object_def is_json_array_def
        split: sum.splits jsval.splits)
  have whole_cloud: "generateFlashcards_gemini cl clock src = Inr [summary_card clock text]"
    if "getModel cl (js ''gemini-2.5-flash'') = Inr model
        \<and> model (generateFlashcards_prompt_gemini src) = Inr res
        \<and> toText res = Inr t \<and> trim t = text"
    using that cloud generateFlashcards_gemini_text [of cl model src res t clock] by simp
  have whole_local: "generateFlashcards_ollama backend src = Inr [summary_object text]"
    if "queryOllama backend (generateFlashcards_prompt_ollama src) = Inr text"
    using that local by (simp add: generateFlashcards_ollama_text)
  from cloud local whole_cloud whole_local show ?thesis
    by (simp add: summary_card_def summary_object_def)
qed

theorem generateFlashcards_without_array_witness:
  "generateFlashcards_gemini (replying_client (Str (js ''  No cards. ''))) sample_clock (js ''notes'')
     = Inr [\<lparr>fc_id = js ''flashcard-1762135200123-0'', fc_question = js ''Summary'',
             fc_answer = js ''No cards.''\<rparr>]
   \<and> generateFlashcards_ollama (answering_backend (js ''No cards.'')) (js ''notes'')
     = Inr [Obj [(js ''question'', Str (js ''Summary'')), (js ''answer'', Str (js ''No cards.''))]]"
proof -
  let ?t = "js ''  No cards. ''"
  let ?res = "Obj [(js ''response'', Obj [(js ''text'', Str ?t)])]"
  let ?model = "\<lambda>prompt::jstring. Inr ?res :: exn + jsval"
  have no: "\<not> contains_json_array (js ''No cards.'')"
    by code_simp
  have c: "summary_card sample_clock (js ''No cards.'')
      = \<lparr>fc_id = js ''flashcard-1762135200123-0'', fc_question = js ''Summary'',
         fc_answer = js ''No cards.''\<rparr>"
    by code_simp
  have g: "getModel (replying_client (Str ?t)) (js ''gemini-2.5-flash'') = Inr ?model"
    by (simp add: getModel_def replying_client_def)
  have tt: "toText ?res = Inr ?t"
    by (simp add: toText_def response_text_def opt_member_def nullish_def get_own_def)
  have tr: "trim ?t = js ''No cards.''"
    by code_simp
  have q: "queryOllama (answering_backend (js ''No cards.''))
             (generateFlashcards_prompt_ollama (js ''notes'')) = Inr (js ''No cards.'')"
    by code_simp
  from generateFlashcards_without_array [OF no, where cl = "replying_client (Str ?t)"
      and model = ?model and src = "js ''notes''" and res = ?res and t = ?t
      and clock = sample_clock and backend = "answering_backend (js ''No cards.'')"]
    g tt tr q
  have "generateFlashcards_gemini (replying_client (Str ?t)) sample_clock (js ''notes'')
          = Inr [summary_card sample_clock (js ''No cards.'')]
        \<and> generateFlashcards_ollama (answering_backend (js ''No cards.'')) (js ''notes'')
          = Inr [summary_object (js ''No cards.'')]"
    by blast
  then show ?thesis
    unfolding c by (simp add: summary_object_def)
qed

subsection \<open>The Structured Extractor on an array inside prose\<close>

lemma match_array_embedded:
  assumes "91 \<notin> set pre" and "93 \<notin> set post"
  shows "match_array (pre @ [91] @ mid @ [93] @ post) = Some ([91] @ mid @ [93])"
proof -
  let ?P = "\<lambda>c::nat. c \<noteq> 91"
  let ?Q = "\<lambda>c::nat. c \<noteq> 93"
  from assms(1) have "dropWhile ?P (pre @ [91] @ mid @ [93] @ post)
      = dropWhile ?P ([91] @ mid @ [93] @ post)"
    by (intro dropWhile_append2) auto
  then have d: "dropWhile ?P (pre @ [91] @ mid @ [93] @ post) = 91 # (mid @ [93] @ post)"
    by simp
  from assms(2) have "dropWhile ?Q (rev post @ 93 # rev mid) = dropWhile ?Q (93 # rev mid)"
    by (intro dropWhile_append2) auto
  then have "rev (dropWhile ?Q (rev (mid @ [93] @ post))) = mid @ [93]"
    by simp
  with d show ?thesis
    by (simp add: match_array_def Let_def)
qed

text \<open>
  Claim C5, amended. Take a text that is not JSON as a whole and that holds, after prose
  with no \<open>[\<close> and before prose with no \<open>]\<close>, a bracketed piece that parses as an array. In
  the cloud variant the pattern matches exactly that piece, its elements are the array
  the extractor works on, and for a non-empty array the result is the result for the
  bare piece: the prose is ignored. The local variant has no such search: it returns
  the one fallback record that holds the whole text.
\<close>

theorem extract_embedded_array:
  assumes "JSON_parse (pre @ [91] @ mid @ [93] @ post) = Inl err"
    and "91 \<notin> set pre" and "93 \<notin> set post"
    and "JSON_parse ([91] @ mid @ [93]) = Inr (Arr xs)"
  shows "match_array (pre @ [91] @ mid @ [93] @ post) = Some ([91] @ mid @ [93])
         \<and> best_effort_array (pre @ [91] @ mid @ [93] @ post) = Some xs
         \<and> (xs \<noteq> [] \<longrightarrow>
              extractFlashcards_gemini clock (pre @ [91] @ mid @ [93] @ post)
              = extractFlashcards_gemini clock ([91] @ mid @ [93]))
         \<and> extractFlashcards_ollama (pre @ [91] @ mid @ [93] @ post)
           = [summary_object (pre @ [91] @ mid @ [93] @ post)]"
proof -
  let ?text = "pre @ [91] @ mid @ [93] @ post"
  let ?arr = "[91] @ mid @ [93]"
  have m: "match_array ?text = Some ?arr"
    using assms(2,3) by (rule match_array_embedded)
  with assms(1,4) have b: "best_effort_array ?text = Some xs"
    by (simp add: best_effort_array_def)
  from assms(4) have b': "best_effort_array ?arr = Some xs"
    by (simp add: best_effort_array_def)
  have same: "extractFlashcards_gemini clock ?text = extractFlashcards_gemini clock ?arr"
    if "xs \<noteq> []"
  proof (cases "make_cards clock 0 xs")
    case (Inl e)
    with b b' show ?thesis
      by (simp add: extractFlashcards_gemini_def)
  next
    case (Inr cards)
    with that have "cards \<noteq> []"
      by (cases xs) (auto split: sum.splits)
    with Inr b b' show ?thesis
      by (simp add: extractFlashcards_gemini_def)
  qed
  from assms(1) have l: "extractFlashcards_ollama ?text = [summary_object ?text]"
    by (simp add: extractFlashcards_ollama_def summary_object_def)
  from m b same l show ?thesis
    by blast
qed

theorem extract_embedded_array_witness:
  \<open>extractFlashcards_gemini sample_clock (js ''Here you go: [{"question":"q","answer":"a"}] Enjoy!'')
     = Inr [\<lparr>fc_id = js ''flashcard-1762135200123-0'', fc_question = js ''q'', fc_answer = js ''a''\<rparr>]
   \<and> extractFlashcards_ollama (js ''Here you go: [{"question":"q","answer":"a"}] Enjoy!'')
     = [Obj [(js ''question'', Str (js ''Summary'')),
             (js ''answer'', Str (js ''Here you go: [{"question":"q","answer":"a"}] Enjoy!''))]]\<close>
proof -
  let ?pre = "js ''Here you go: ''"
  let ?mid = \<open>js ''{"question":"q","answer":"a"}''\<close>
  let ?post = "js '' Enjoy!''"
  let ?xs = "[Obj [(js ''question'', Str (js ''q'')), (js ''answer'', Str (js ''a''))]]"
  have whole: "JSON_parse (?pre @ [91] @ ?mid @ [93] @ ?post) = Inl SyntaxError"
    by code_simp
  have pre: "91 \<notin> set ?pre" and post: "93 \<notin> set ?post"
    by code_simp+
  have arr: "JSON_parse ([91] @ ?mid @ [93]) = Inr (Arr ?xs)"
    by code_simp
  have bare: "extractFlashcards_gemini sample_clock ([91] @ ?mid @ [93])
      = Inr [\<lparr>fc_id = js ''flashcard-1762135200123-0'', fc_question = js ''q'', fc_answer = js ''a''\<rparr>]"
    by code_simp
  have joined: \<open>?pre @ [91] @ ?mid @ [93] @ ?post
      = js ''Here you go: [{"question":"q","answer":"a"}] Enjoy!''\<close>
    by (simp add: js_def)
  from extract_embedded_array [OF whole pre post arr, of sample_clock] bare
  show ?thesis
    unfolding joined by (simp add: summary_object_def)
qed

text \<open>As stated, the claim fails for the local variant, which parses the whole text only.\<close>

theorem extract_embedded_array_counterexample:
  \<open>extractFlashcards_ollama (js ''Here you go: [{"question":"q","answer":"a"}]'')
     = [Obj [(js ''question'', Str (js ''Summary'')),
             (js ''answer'', Str (js ''Here you go: [{"question":"q","answer":"a"}]''))]]\<close>
  by code_simp

subsection \<open>The stream of the local backend\<close>

lemma split_nl_not_Nil: "split_nl s \<noteq> []"
  by (induction s) (auto split: list.splits)

lemma split_nl_append: "split_nl (a @ 10 # b) = split_nl a @ split_nl b"
proof (induction a)
  case Nil
  show ?case by simp
next
  case (Cons c a)
  obtain l ls where s: "split_nl a = l # ls"
    using split_nl_not_Nil [of a] by (cases "split_nl a") auto
  with Cons.IH show ?case
    by simp
qed

lemma chunk_lines_append:
  assumes "a = [] \<or> last a = 10"
  shows "chunk_lines (a @ b) = chunk_lines a @ chunk_lines b"
proof (cases "a = []")
  case True
  then show ?thesis by (simp add: chunk_lines_def)
next
  case False
  with assms have "a = butlast a @ [10]"
    by (metis append_butlast_last_id)
  then obtain a' where a: "a = a' @ [10]" ..
  have "split_nl (a @ b) = split_nl a' @ split_nl b"
    using split_nl_append [of a' b] by (simp add: a)
  moreover have "split_nl a = split_nl a' @ [[]]"
    using split_nl_append [of a' "[]"] by (simp add: a)
  ultimately show ?thesis
    by (simp add: chunk_lines_def)
qed

lemma chunk_lines_concat:
  "\<forall>c \<in> set (butlast chunks). c = [] \<or> last c = 10 \<Longrightarrow>
   chunk_lines (concat chunks) = concat (map chunk_lines chunks)"
proof (induction chunks)
  case Nil
  show ?case by (simp add: chunk_lines_def)
next
  case (Cons c chunks)
  show ?case
  proof (cases "chunks = []")
    case True
    then show ?thesis by simp
  next
    case False
    with Cons.prems have c: "c = [] \<or> last c = 10"
      and rest: "\<forall>c \<in> set (butlast chunks). c = [] \<or> last c = 10"
      by simp_all
    from chunk_lines_append [OF c] Cons.IH [OF rest] show ?thesis
      by simp
  qed
qed

lemma read_loop_done:
  "read_loop result chunks None = Inr (foldl process_line result (concat (map chunk_lines chunks)))"
  by (induction chunks arbitrary: result) (simp_all add: process_chunk_def)

lemma process_line_response: "response_line line r \<Longrightarrow> process_line result line = result @ r"
  by (auto simp: response_line_def process_line_def member_def nullish_def get_own_def
      concat_operand_def)

lemma foldl_process_line:
  "list_all2 response_line lines rs \<Longrightarrow> foldl process_line result lines = result @ concat rs"
proof (induction lines rs arbitrary: result rule: list_all2_induct)
  case Nil
  show ?case by simp
next
  case (Cons line lines r rs)
  then show ?case
    by (simp add: process_line_response)
qed

lemma queryOllama_lines:
  assumes "backend prompt = Inr res"
    and "200 \<le> status res \<and> status res \<le> 299"
    and "body res = Some (chunks, None)"
    and "\<forall>c \<in> set (butlast chunks). c = [] \<or> last c = 10"
    and "list_all2 response_line (chunk_lines (concat chunks)) rs"
  shows "queryOllama backend prompt = Inr (trim (concat rs))"
proof -
  from assms(4) have "chunk_lines (concat chunks) = concat (map chunk_lines chunks)"
    by (rule chunk_lines_concat)
  with assms(5) have "foldl process_line [] (concat (map chunk_lines chunks)) = concat rs"
    using foldl_process_line [of "chunk_lines (concat chunks)" rs "[]"] by simp
  then have "read_loop [] chunks None = Inr (concat rs)"
    by (simp add: read_loop_done)
  with assms(1,2,3) show ?thesis
    by (simp add: queryOllama_def ok_def)
qed

text \<open>
  Claim C2, amended. Take a streamed response of the local backend whose chunks end at
  line boundaries (every chunk but the last is empty or ends with a line feed) and whose
  non-empty lines are JSON objects, each with a string \<open>response\<close> or with none. Then the
  output of \<open>queryOllama\<close> is the concatenation, in arrival order, of the \<open>response\<close>
  fields, trimmed, and it is the output for the same text delivered as one chunk. A line
  that is split between two chunks is not covered: the code parses each chunk's pieces
  on their own and drops what does not parse.
\<close>

theorem queryOllama_whole_lines:
  assumes "backend prompt = Inr res"
    and "200 \<le> status res \<and> status res \<le> 299"
    and "body res = Some (chunks, None)"
    and "\<forall>c \<in> set (butlast chunks). c = [] \<or> last c = 10"
    and "list_all2 response_line (chunk_lines (concat chunks)) rs"
  shows "queryOllama backend prompt = Inr (trim (concat rs))
         \<and> queryOllama (\<lambda>p. Inr (res\<lparr>body := Some ([concat chunks], None)\<rparr>)) prompt
           = queryOllama backend prompt"
proof -
  have split: "queryOllama backend prompt = Inr (trim (concat rs))"
    using assms by (rule queryOllama_lines)
  have "queryOllama (\<lambda>p. Inr (res\<lparr>body := Some ([concat chunks], None)\<rparr>)) prompt
        = Inr (trim (concat rs))"
    using assms(2,5)
    by (intro queryOllama_lines [where res = "res\<lparr>body := Some ([concat chunks], None)\<rparr>"
          and chunks = "[concat chunks]"]) simp_all
  with split show ?thesis
    by simp
qed

theorem queryOllama_whole_lines_witness:
  \<open>queryOllama
     (streaming_backend
        [js ''{"response":"Hel"}\<newline>{"response":"lo"}\<newline>'',
         js ''{"response":"!","done":true}\<newline>''])
     (js ''hi'')
   = Inr (js ''Hello!'')\<close>
proof -
  let ?c1 = \<open>js ''{"response":"Hel"}\<newline>{"response":"lo"}\<newline>''\<close>
  let ?c2 = \<open>js ''{"response":"!","done":true}\<newline>''\<close>
  let ?l1 = \<open>js ''{"response":"Hel"}''\<close>
  let ?l2 = \<open>js ''{"response":"lo"}''\<close>
  let ?l3 = \<open>js ''{"response":"!","done":true}''\<close>
  let ?res = "\<lparr>status = 200, text_body = Inr (concat [?c1, ?c2]), body = Some ([?c1, ?c2], None)\<rparr>"
  have b: "streaming_backend [?c1, ?c2] (js ''hi'') = Inr ?res"
    by (simp add: streaming_backend_def)
  have st: "200 \<le> status ?res \<and> status ?res \<le> 299"
    by simp
  have bd: "body ?res = Some ([?c1, ?c2], None)"
    by simp
  have ends: "\<forall>c \<in> set (butlast [?c1, ?c2]). c = [] \<or> last c = 10"
    by (simp add: js_def)
  have ls: "chunk_lines (concat [?c1, ?c2]) = [?l1, ?l2, ?l3]"
    by code_simp
  have p1: "JSON_parse ?l1 = Inr (Obj [(js ''response'', Str (js ''Hel''))])"
    by code_simp
  have p2: "JSON_parse ?l2 = Inr (Obj [(js ''response'', Str (js ''lo''))])"
    by code_simp
  have p3: "JSON_parse ?l3 = Inr (Obj [(js ''response'', Str (js ''!'')), (js ''done'', Bool True)])"
    by code_simp
  have "response_line ?l1 (js ''Hel'')" "response_line ?l2 (js ''lo'')" "response_line ?l3 (js ''!'')"
    unfolding response_line_def p1 p2 p3 by simp_all
  with ls have rs: "list_all2 response_line (chunk_lines (concat [?c1, ?c2])) [js ''Hel'', js ''lo'', js ''!'']"
    by simp
  have t: "trim (concat [js ''Hel'', js ''lo'', js ''!'']) = js ''Hello!''"
    by code_simp
  from queryOllama_whole_lines [of "streaming_backend [?c1, ?c2]" "js ''hi''" ?res "[?c1, ?c2]"
      "[js ''Hel'', js ''lo'', js ''!'']", OF b st bd ends rs] t
  show ?thesis
    by simp
qed

text \<open>As stated, the claim fails: the same text gives \<open>ab\<close> in one chunk and the empty
  string when the chunk boundary falls inside the line.\<close>

theorem queryOllama_split_line_counterexample:
  \<open>queryOllama (streaming_backend [js ''{"response":"ab"}\<newline>'']) (js ''hi'') = Inr (js ''ab'')
   \<and> queryOllama (streaming_backend [js ''{"respon'', js ''se":"ab"}\<newline>'']) (js ''hi'') = Inr []\<close>
  by code_simp

end
